theory Spec2Isabelle
  imports Main "HOL-Library.Sublist"
begin

section \<open>JavaScript values\<close>

text \<open>
  A raw backend record is an untyped JavaScript object whose fields hold JSON data:
  absent (\<open>undefined\<close>), \<open>null\<close>, booleans, numbers, strings, arrays and nested
  objects.  Strings are character lists.  A number is represented by the two
  observations this program makes of one: whether it is falsy (\<open>0\<close>, \<open>-0\<close> or
  \<open>NaN\<close>) and the text \<open>String(n)\<close> gives; no arithmetic is done on raw values.
  An object is an association list in insertion order, read at the first entry of a key.
\<close>

datatype jsnum = Number (zero_or_nan: bool) (shown: string)

datatype jsval =
    JUndefined
  | JNull
  | JBool bool
  | JNum jsnum
  | JStr string
  | JArr "jsval list"
  | JObj "(string \<times> jsval) list"

type_synonym obj = "(string \<times> jsval) list"

datatype error = TypeError

text \<open>\<open>ToBoolean\<close>: the test made by \<open>||\<close>, \<open>&&\<close>, \<open>!\<close>, \<open>?:\<close> and \<open>if\<close>.\<close>

fun truthy :: "jsval \<Rightarrow> bool" where
  "truthy JUndefined = False"
| "truthy JNull = False"
| "truthy (JBool b) = b"
| "truthy (JNum n) = (\<not> zero_or_nan n)"
| "truthy (JStr s) = (s \<noteq> [])"
| "truthy (JArr xs) = True"
| "truthy (JObj kvs) = True"

text \<open>\<open>a || b\<close> on values.\<close>

definition js_or :: "jsval \<Rightarrow> jsval \<Rightarrow> jsval" where
  "js_or a b = (if truthy a then a else b)"

text \<open>\<open>v != null\<close> is false for \<open>null\<close> and \<open>undefined\<close> only.\<close>

fun nullish :: "jsval \<Rightarrow> bool" where
  "nullish JUndefined = True"
| "nullish JNull = True"
| "nullish v = False"

text \<open>\<open>raw.k\<close> on an object: the own property, \<open>undefined\<close> when it is absent.\<close>

definition field :: "obj \<Rightarrow> string \<Rightarrow> jsval" where
  "field raw k = (case map_of raw k of None \<Rightarrow> JUndefined | Some v \<Rightarrow> v)"

text \<open>
  \<open>v[k]\<close> on any value, for a key \<open>k\<close> that is neither an index, \<open>length\<close> nor a name
  on a built-in prototype (true of every key this program reads): \<open>null\<close> and
  \<open>undefined\<close> raise, an object answers with its own property, and every other
  value has no such property.
\<close>

fun js_get :: "jsval \<Rightarrow> string \<Rightarrow> error + jsval" where
  "js_get JUndefined k = Inl TypeError"
| "js_get JNull k = Inl TypeError"
| "js_get (JObj kvs) k = Inr (field kvs k)"
| "js_get v k = Inr JUndefined"

text \<open>\<open>xs.join(sep)\<close> on strings.\<close>

fun join :: "string \<Rightarrow> string list \<Rightarrow> string" where
  "join sep [] = []"
| "join sep [x] = x"
| "join sep (x # y # ys) = x @ sep @ join sep (y # ys)"

text \<open>A thrown exception is \<open>Inl\<close>; \<open>bindE\<close> runs the next statement unless one was thrown.\<close>

definition bindE :: "error + 'a \<Rightarrow> ('a \<Rightarrow> error + 'b) \<Rightarrow> error + 'b" where
  "bindE m f = (case m of Inl e \<Rightarrow> Inl e | Inr x \<Rightarrow> f x)"

text \<open>
  \<open>String(v)\<close>, which is also the conversion \<open>+\<close> makes of an operand beside a string.
  A primitive always has a text.  An object is converted by calling its \<open>toString\<close>
  and, where that is not callable, its \<open>valueOf\<close>: an object of JSON data inherits
  both, the first answering \<open>[object Object]\<close> and the second the object itself,
  and an own field of either name holds data, which cannot be called.  So an object
  with an own \<open>toString\<close> field has no callable \<open>toString\<close> and a \<open>valueOf\<close> that
  gives no primitive: the conversion throws a \<open>TypeError\<close>; every other object is
  \<open>[object Object]\<close>.  An array is its elements joined with a comma, converted from
  the left, \<open>null\<close> and \<open>undefined\<close> elements giving the empty string and the first
  element that cannot be converted throwing; \<open>elem_strings\<close> is that per-element
  conversion, which \<open>Array.prototype.join\<close> uses too.
\<close>

fun js_String :: "jsval \<Rightarrow> error + string"
  and elem_strings :: "jsval list \<Rightarrow> error + string list" where
  "js_String JUndefined = Inr ''undefined''"
| "js_String JNull = Inr ''null''"
| "js_String (JBool b) = Inr (if b then ''true'' else ''false'')"
| "js_String (JNum n) = Inr (shown n)"
| "js_String (JStr s) = Inr s"
| "js_String (JArr xs) =
     (case elem_strings xs of Inl e \<Rightarrow> Inl e | Inr ss \<Rightarrow> Inr (join '','' ss))"
| "js_String (JObj kvs) =
     (if ''toString'' \<in> set (map fst kvs) then Inl TypeError else Inr ''[object Object]'')"
| "elem_strings [] = Inr []"
| "elem_strings (x # xs) =
     (case (if nullish x then Inr [] else js_String x) of
        Inl e \<Rightarrow> Inl e
      | Inr s \<Rightarrow> (case elem_strings xs of Inl e \<Rightarrow> Inl e | Inr ss \<Rightarrow> Inr (s # ss)))"

text \<open>
  \<open>v.join(sep)\<close> as a method call: only an array has the method, and it throws when
  an element cannot be converted.
\<close>

fun js_join :: "jsval \<Rightarrow> string \<Rightarrow> error + string" where
  "js_join (JArr xs) sep =
     (case elem_strings xs of Inl e \<Rightarrow> Inl e | Inr ss \<Rightarrow> Inr (join sep ss))"
| "js_join v sep = Inl TypeError"

text \<open>
  White space and line terminators of \<open>String.prototype.trim\<close> among the characters
  of the model: tab, line feed, vertical tab, form feed, carriage return, space and
  the no-break space.
\<close>

definition js_space :: "char \<Rightarrow> bool" where
  "js_space c = (c \<in> {CHR 0x09, CHR 0x0A, CHR 0x0B, CHR 0x0C, CHR 0x0D, CHR 0x20, CHR 0xA0})"

definition trim :: "string \<Rightarrow> string" where
  "trim s = rev (dropWhile js_space (rev (dropWhile js_space s)))"

text \<open>\<open>v.trim()\<close> as a method call: only a string has the method.\<close>

fun js_trim :: "jsval \<Rightarrow> error + string" where
  "js_trim (JStr s) = Inr (trim s)"
| "js_trim v = Inl TypeError"

section \<open>Column registry (reg-columns.js, columns.js)\<close>

record ColumnDef =
  key :: string
  label :: string
  wrap :: "bool option"
  excelOnly :: "bool option"
  uiOnly :: "bool option"
  bucket :: "string option"

text \<open>A flag that is absent (\<open>undefined\<close>) or \<open>false\<close> is falsy.\<close>

definition flag :: "bool option \<Rightarrow> bool" where
  "flag f = (f = Some True)"

definition col :: "string \<Rightarrow> string \<Rightarrow> ColumnDef" where
  "col k l = \<lparr>key = k, label = l, wrap = None, excelOnly = None, uiOnly = None, bucket = None\<rparr>"


definition ABSTRACT_COLUMNS :: "ColumnDef list" where
  "ABSTRACT_COLUMNS =
    [col ''id'' ''ID'',
     col ''created_at'' ''Submitted At'',
     col ''first_name'' ''First Name'',
     col ''last_name'' ''Last Name'',
     col ''email'' ''Email'',
     (col ''affiliation'' ''Affiliation'')\<lparr>wrap := Some True\<rparr>,
     (col ''title'' ''Title'')\<lparr>wrap := Some True\<rparr>,
     (col ''session'' ''Session'')\<lparr>wrap := Some True\<rparr>,
     (col ''co_authors'' ''Co-Authors'')\<lparr>wrap := Some True\<rparr>,
     (col ''abstract_text'' ''Abstract Text'')\<lparr>wrap := Some True\<rparr>,
     (col ''has_file'' ''File'')\<lparr>uiOnly := Some True, bucket := Some ''abstracts''\<rparr>,
     (col ''_file_path'' ''File Path (ZIP)'')\<lparr>excelOnly := Some True\<rparr>]"



text \<open>
  \<open>Array.prototype.filter\<close>: visit the elements from index 0 upwards and append to the
  result each one the callback accepts.
\<close>

fun filter_loop :: "('a \<Rightarrow> bool) \<Rightarrow> 'a list \<Rightarrow> 'a list \<Rightarrow> 'a list" where
  "filter_loop p [] acc = acc"
| "filter_loop p (x # xs) acc = filter_loop p xs (if p x then acc @ [x] else acc)"

definition array_filter :: "('a \<Rightarrow> bool) \<Rightarrow> 'a list \<Rightarrow> 'a list" where
  "array_filter p xs = filter_loop p xs []"

definition uiColumns :: "ColumnDef list \<Rightarrow> ColumnDef list" where
  "uiColumns cols = array_filter (\<lambda>c. \<not> flag (excelOnly c)) cols"

definition excelColumns :: "ColumnDef list \<Rightarrow> ColumnDef list" where
  "excelColumns cols = array_filter (\<lambda>c. \<not> flag (uiOnly c)) cols"

section \<open>Registration-phase normalizers (reg-transform.js)\<close>

definition boolStr :: "jsval \<Rightarrow> jsval" where
  "boolStr v =
     (if v = JBool True then JStr ''Yes''
      else if v = JBool False then JStr ''No''
      else JStr '''')"

text \<open>\<open>s.split(c)\<close> for a one-character separator: never empty, \<open>"".split("/")\<close> is \<open>[""]\<close>.\<close>

fun split_on :: "char \<Rightarrow> string \<Rightarrow> string list" where
  "split_on c [] = [[]]"
| "split_on c (x # xs) =
     (if x = c then [] # split_on c xs
      else (case split_on c xs of [] \<Rightarrow> [[x]] | p # ps \<Rightarrow> (x # p) # ps))"

text \<open>\<open>s.replace(/\\/g, "/")\<close>: every backslash becomes a slash.\<close>

definition slashes :: "string \<Rightarrow> string" where
  "slashes s = map (\<lambda>c. if c = CHR 0x5C then CHR ''/'' else c) s"

text \<open>\<open>v.replace(/\\/g, "/").split("/")\<close> as method calls: only a string has \<open>replace\<close>.\<close>

fun path_parts :: "jsval \<Rightarrow> error + string list" where
  "path_parts (JStr s) = Inr (split_on CHR ''/'' (slashes s))"
| "path_parts v = Inl TypeError"

text \<open>\<open>parts[parts.length - 1]\<close>: \<open>undefined\<close> on an empty array.\<close>

definition last_part :: "string list \<Rightarrow> jsval" where
  "last_part parts = (if parts = [] then JUndefined else JStr (last parts))"

definition fileLabel :: "jsval \<Rightarrow> error + jsval" where
  "fileLabel filePath =
     (if \<not> truthy filePath then Inr (JStr '''')
      else bindE (path_parts filePath) (\<lambda>parts.
        Inr (js_or (last_part parts) filePath)))"

definition transformRegistration :: "obj \<Rightarrow> obj" where
  "transformRegistration raw =
    [(''id'', js_or (field raw ''id'') (JStr '''')),
     (''created_at'', js_or (field raw ''created_at'') (JStr '''')),
     (''updated_at'', js_or (field raw ''updated_at'') (JStr '''')),
     (''first_name'', js_or (field raw ''first_name'') (JStr '''')),
     (''last_name'', js_or (field raw ''last_name'') (JStr '''')),
     (''email'', js_or (field raw ''email'') (JStr '''')),
     (''affiliation'', js_or (field raw ''affiliation'') (JStr '''')),
     (''country'', js_or (field raw ''country'') (JStr '''')),
     (''registration_type'', js_or (field raw ''registration_type'') (JStr '''')),
     (''abstract_intent'', js_or (field raw ''abstract_intent'') (JStr '''')),
     (''payment_confirmed'', boolStr (field raw ''payment_confirmed'')),
     (''mailing_consent'', boolStr (field raw ''mailing_consent'')),
     (''gdpr_consent'', boolStr (field raw ''gdpr_consent''))]"

definition transformAbstract :: "obj \<Rightarrow> error + obj" where
  "transformAbstract raw =
     bindE (if truthy (field raw ''file_path'') then fileLabel (field raw ''file_path'')
            else Inr (JStr '''')) (\<lambda>has_file.
     Inr [(''id'', js_or (field raw ''id'') (JStr '''')),
          (''created_at'', js_or (field raw ''created_at'') (JStr '''')),
          (''first_name'', js_or (field raw ''first_name'') (JStr '''')),
          (''last_name'', js_or (field raw ''last_name'') (JStr '''')),
          (''email'', js_or (field raw ''email'') (JStr '''')),
          (''affiliation'', js_or (field raw ''affiliation'') (JStr '''')),
          (''title'', js_or (field raw ''title'') (JStr '''')),
          (''session'', js_or (field raw ''session'') (JStr '''')),
          (''co_authors'', js_or (field raw ''co_authors'') (JStr '''')),
          (''abstract_text'', js_or (field raw ''abstract_text'') (JStr '''')),
          (''notes'', js_or (field raw ''notes'') (JStr '''')),
          (''has_file'', has_file),
          (''_file_path'', js_or (field raw ''file_path'') (JStr ''''))])"

definition transformPayment :: "obj \<Rightarrow> error + obj" where
  "transformPayment raw =
     bindE (if truthy (field raw ''file_path'') then fileLabel (field raw ''file_path'')
            else Inr (JStr '''')) (\<lambda>has_file.
     Inr [(''id'', js_or (field raw ''id'') (JStr '''')),
          (''created_at'', js_or (field raw ''created_at'') (JStr '''')),
          (''email'', js_or (field raw ''email'') (JStr '''')),
          (''receipt_type'', js_or (field raw ''receipt_type'') (JStr '''')),
          (''notes'', js_or (field raw ''notes'') (JStr '''')),
          (''has_file'', has_file),
          (''_file_path'', js_or (field raw ''file_path'') (JStr ''''))])"






section \<open>Thematic-session normalizer (transform.js)\<close>

text \<open>
  \<open>JSON.parse\<close> belongs to the runtime, so it is a parameter \<open>parse\<close> of every
  function that calls it: \<open>None\<close> is a thrown \<open>SyntaxError\<close>, \<open>Some v\<close> the decoded
  value.  Nothing is assumed of it.
\<close>

type_synonym json_parse = "string \<Rightarrow> jsval option"

definition ORGANIZER_FIELDS :: "string list" where
  "ORGANIZER_FIELDS = [''email'', ''country'', ''lastName'', ''firstName'', ''affiliation'']"

fun typeof :: "jsval \<Rightarrow> string" where
  "typeof JUndefined = ''undefined''"
| "typeof JNull = ''object''"
| "typeof (JBool b) = ''boolean''"
| "typeof (JNum n) = ''number''"
| "typeof (JStr s) = ''string''"
| "typeof (JArr xs) = ''object''"
| "typeof (JObj kvs) = ''object''"

fun isArray :: "jsval \<Rightarrow> bool" where
  "isArray (JArr xs) = True"
| "isArray v = False"

text \<open>\<open>out[k] = v\<close>: overwrite the property where it exists, append it otherwise.\<close>

definition obj_set :: "string \<Rightarrow> jsval \<Rightarrow> obj \<Rightarrow> obj" where
  "obj_set k v out =
     (if k \<in> set (map fst out) then map (\<lambda>(k', v'). if k' = k then (k', v) else (k', v')) out
      else out @ [(k, v)])"

text \<open>\<open>Object.assign(target, src)\<close>: set every property of \<open>src\<close>, in its order.\<close>

definition obj_assign :: "obj \<Rightarrow> obj \<Rightarrow> obj" where
  "obj_assign target src = foldl (\<lambda>out (k, v). obj_set k v out) target src"

text \<open>The first half of \<open>flattenOrganizer\<close>: the value of \<open>parsed\<close> when the loop starts.\<close>

definition organizer_parsed :: "json_parse \<Rightarrow> jsval \<Rightarrow> error + jsval" where
  "organizer_parsed parse blob =
     (if blob \<noteq> JNull \<and> blob \<noteq> JUndefined then
        (if typeof blob = ''string'' then
           bindE (js_trim blob) (\<lambda>trimmed.
             if length trimmed > 0 then
               (case parse trimmed of None \<Rightarrow> Inr JNull | Some v \<Rightarrow> Inr v)
             else Inr JNull)
         else if typeof blob = ''object'' then Inr blob
         else Inr JNull)
      else Inr JNull)"

text \<open>\<open>parsed && parsed[key] != null ? String(parsed[key]) : ""\<close>\<close>

definition organizer_value :: "jsval \<Rightarrow> string \<Rightarrow> error + jsval" where
  "organizer_value parsed k =
     (if truthy parsed then
        bindE (js_get parsed k) (\<lambda>v.
          if \<not> nullish v then
            bindE (js_get parsed k) (\<lambda>v'. bindE (js_String v') (\<lambda>s. Inr (JStr s)))
          else Inr (JStr ''''))
      else Inr (JStr ''''))"

text \<open>The loop of \<open>flattenOrganizer\<close> over the fields still to be written.\<close>

fun flatten_loop :: "jsval \<Rightarrow> string \<Rightarrow> string list \<Rightarrow> obj \<Rightarrow> error + obj" where
  "flatten_loop parsed pfx [] out = Inr out"
| "flatten_loop parsed pfx (k # ks) out =
     bindE (organizer_value parsed k) (\<lambda>v.
       flatten_loop parsed pfx ks (obj_set (pfx @ ''_'' @ k) v out))"

definition flattenOrganizer :: "json_parse \<Rightarrow> jsval \<Rightarrow> string \<Rightarrow> error + obj" where
  "flattenOrganizer parse blob pfx =
     bindE (organizer_parsed parse blob) (\<lambda>parsed.
       flatten_loop parsed pfx ORGANIZER_FIELDS [])"

text \<open>\<open>s.charAt(i)\<close>: the empty string out of range.\<close>

definition charAt :: "string \<Rightarrow> nat \<Rightarrow> string" where
  "charAt s i = (if i < length s then [s ! i] else [])"

text \<open>
  The \<open>try\<close> block of \<open>normaliseKeywords\<close>: \<open>Some r\<close> when it returns \<open>r\<close>, \<open>None\<close> when
  control leaves it without returning, after a caught exception or a decoded non-array.
\<close>

definition keywords_try :: "json_parse \<Rightarrow> string \<Rightarrow> jsval option" where
  "keywords_try parse trimmed =
     (case parse trimmed of
        None \<Rightarrow> None
      | Some arr \<Rightarrow>
          if isArray arr then
            (case js_join arr '', '' of Inl e \<Rightarrow> None | Inr s \<Rightarrow> Some (JStr s))
          else None)"

definition normaliseKeywords :: "json_parse \<Rightarrow> jsval \<Rightarrow> error + jsval" where
  "normaliseKeywords parse kw =
     (if kw = JNull \<or> kw = JUndefined then Inr (JStr '''')
      else if isArray kw then bindE (js_join kw '', '') (\<lambda>s. Inr (JStr s))
      else if typeof kw = ''string'' then
        bindE (js_trim kw) (\<lambda>trimmed.
          case (if charAt trimmed 0 = ''['' then keywords_try parse trimmed else None) of
            Some r \<Rightarrow> Inr r
          | None \<Rightarrow> Inr kw)
      else bindE (js_String kw) (\<lambda>s. Inr (JStr s)))"





section \<open>Archive export (zip-export.js)\<close>

definition storageBasename :: "jsval \<Rightarrow> error + jsval" where
  "storageBasename filePath =
     bindE (path_parts filePath) (\<lambda>parts. Inr (js_or (last_part parts) filePath))"

text \<open>\<open>s.replace(/@/g, "_at_")\<close>\<close>

definition replace_at :: "string \<Rightarrow> string" where
  "replace_at s = concat (map (\<lambda>c. if c = CHR ''@'' then ''_at_'' else [c]) s)"

text \<open>The character class \<open>[a-zA-Z0-9._+-]\<close>.\<close>

definition safe_char :: "char \<Rightarrow> bool" where
  "safe_char c =
     (let n = (of_char c :: nat) in
        (97 \<le> n \<and> n \<le> 122) \<or> (65 \<le> n \<and> n \<le> 90) \<or> (48 \<le> n \<and> n \<le> 57)
        \<or> c = CHR ''.'' \<or> c = CHR ''_'' \<or> c = CHR ''+'' \<or> c = CHR ''-'')"

text \<open>\<open>s.replace(/[^a-zA-Z0-9._+-]/g, "_")\<close>\<close>

definition replace_unsafe :: "string \<Rightarrow> string" where
  "replace_unsafe s = map (\<lambda>c. if safe_char c then c else CHR ''_'') s"

text \<open>\<open>(email || "unknown")\<close>, then the two \<open>replace\<close> calls, which only a string has.\<close>

definition safeEmail :: "jsval \<Rightarrow> error + string" where
  "safeEmail email =
     (case js_or email (JStr ''unknown'') of
        JStr s \<Rightarrow> Inr (replace_unsafe (replace_at s))
      | _ \<Rightarrow> Inl TypeError)"

definition zipFilename :: "jsval \<Rightarrow> jsval \<Rightarrow> error + string" where
  "zipFilename email filePath =
     bindE (safeEmail email) (\<lambda>e.
     bindE (storageBasename filePath) (\<lambda>b.
     bindE (js_String b) (\<lambda>name.
       Inr (e @ ''_'' @ name))))"

text \<open>
  The storage and HTTP collaborators.  Each call may depend on and change the state of
  the outside world, a value of type \<open>'w\<close> threaded through the calls, and either
  returns or throws (\<open>Inl\<close>).  \<open>createSignedUrl\<close> answers with an error message or
  with the signed URL; a response carries its \<open>ok\<close> flag, its status and what
  \<open>arrayBuffer()\<close> gives.
\<close>

type_synonym bytes = "nat list"

record signed =
  signed_error :: "string option"
  signed_url :: "string option"

record response =
  ok :: bool
  status :: nat
  arrayBuffer :: "error + bytes"

type_synonym 'w signer = "string \<Rightarrow> string \<Rightarrow> 'w \<Rightarrow> (error + signed) \<times> 'w"

type_synonym 'w fetcher = "string \<Rightarrow> 'w \<Rightarrow> (error + response) \<times> 'w"

text \<open>
  \<open>fetchStorageFile\<close>: \<open>None\<close> is the \<open>null\<close> it returns; the whole body is inside
  \<open>try\<close>, so every exception ends in \<open>null\<close> too.  Reading \<open>signed.data.signedUrl\<close>
  when \<open>data\<close> is \<open>null\<close> is such an exception.
\<close>

definition fetchStorageFile ::
  "'w signer \<Rightarrow> 'w fetcher \<Rightarrow> string \<Rightarrow> string \<Rightarrow> 'w \<Rightarrow> bytes option \<times> 'w" where
  "fetchStorageFile createSignedUrl fetch bucketName filePath w =
     (case createSignedUrl bucketName filePath w of
        (Inl e, w1) \<Rightarrow> (None, w1)
      | (Inr sg, w1) \<Rightarrow>
          if signed_error sg \<noteq> None then (None, w1)
          else (case signed_url sg of
                  None \<Rightarrow> (None, w1)
                | Some url \<Rightarrow>
                    (case fetch url w1 of
                       (Inl e, w2) \<Rightarrow> (None, w2)
                     | (Inr resp, w2) \<Rightarrow>
                         if \<not> ok resp then (None, w2)
                         else (case arrayBuffer resp of
                                 Inl e \<Rightarrow> (None, w2)
                               | Inr buf \<Rightarrow> (Some buf, w2)))))"

text \<open>
  The archive under construction: its entries by full name, in insertion order.
  \<open>zip.file(name, data)\<close> writes an entry, replacing one of the same name;
  \<open>zip.folder(name)\<close> adds the directory entry \<open>name/\<close>, and files written through the
  folder it returns are named \<open>name/file\<close>.  Directory entries that the archive
  library adds on its own for the parents of a name are not tracked.
\<close>

datatype content = Folder | Workbook bytes | Bytes bytes | Text string

type_synonym zip = "(string \<times> content) list"

definition zip_file :: "string \<Rightarrow> content \<Rightarrow> zip \<Rightarrow> zip" where
  "zip_file name c z =
     (if name \<in> set (map fst z) then map (\<lambda>(n, c'). if n = name then (n, c) else (n, c')) z
      else z @ [(name, c)])"

definition zip_folder :: "string \<Rightarrow> zip \<Rightarrow> zip" where
  "zip_folder name z =
     (if (name @ ''/'') \<in> set (map fst z) then z else z @ [(name @ ''/'', Folder)])"

text \<open>
  The loop over the abstracts that have a file: the archive and \<open>failedFiles\<close> so far,
  and the world.  The file name is computed before the file is fetched.  \<open>path\<close> is
  \<open>abs._file_path\<close> as the text that the storage call and the failure label make of
  it: the value itself, a string, since \<open>zipFilename\<close> has just called \<open>replace\<close> on
  it.
\<close>

fun abstracts_loop ::
  "'w signer \<Rightarrow> 'w fetcher \<Rightarrow> obj list \<Rightarrow> zip \<times> string list \<Rightarrow> 'w
     \<Rightarrow> (error + zip \<times> string list) \<times> 'w" where
  "abstracts_loop sg fe [] st w = (Inr st, w)"
| "abstracts_loop sg fe (absRow # rest) (z, failedFiles) w =
     (case zipFilename (field absRow ''email'') (field absRow ''_file_path'') of
        Inl e \<Rightarrow> (Inl e, w)
      | Inr filename \<Rightarrow>
          (case js_String (field absRow ''_file_path'') of
             Inl e \<Rightarrow> (Inl e, w)
           | Inr path \<Rightarrow>
               (case fetchStorageFile sg fe ''abstracts'' path w of
                  (Some buffer, w') \<Rightarrow>
                    abstracts_loop sg fe rest
                      (zip_file (''abstracts/'' @ filename) (Bytes buffer) z, failedFiles) w'
                | (None, w') \<Rightarrow>
                    abstracts_loop sg fe rest (z, failedFiles @ [''abstracts/'' @ path]) w')))"

text \<open>
  The loop over the payment receipts that have a file: one folder per owner.
  \<open>pFilename\<close> and \<open>path\<close> are the texts of two strings, the basename and
  \<open>pay._file_path\<close>, on which \<open>storageBasename\<close> has just called \<open>replace\<close>.
\<close>

fun payments_loop ::
  "'w signer \<Rightarrow> 'w fetcher \<Rightarrow> obj list \<Rightarrow> zip \<times> string list \<Rightarrow> 'w
     \<Rightarrow> (error + zip \<times> string list) \<times> 'w" where
  "payments_loop sg fe [] st w = (Inr st, w)"
| "payments_loop sg fe (pay # rest) (z, failedFiles) w =
     (case safeEmail (field pay ''email'') of
        Inl e \<Rightarrow> (Inl e, w)
      | Inr owner \<Rightarrow>
          (let userFolder = ''payment_receipts/'' @ owner;
               z = zip_folder userFolder z
           in case bindE (storageBasename (field pay ''_file_path'')) js_String of
                Inl e \<Rightarrow> (Inl e, w)
              | Inr pFilename \<Rightarrow>
                  (case js_String (field pay ''_file_path'') of
                     Inl e \<Rightarrow> (Inl e, w)
                   | Inr path \<Rightarrow>
                       (case fetchStorageFile sg fe ''payment-receipts'' path w of
                          (Some pBuffer, w') \<Rightarrow>
                            payments_loop sg fe rest
                              (zip_file (userFolder @ ''/'' @ pFilename) (Bytes pBuffer) z,
                               failedFiles) w'
                        | (None, w') \<Rightarrow>
                            payments_loop sg fe rest
                              (z, failedFiles @
                                 [''payment_receipts/'' @ owner @ ''/'' @ path]) w'))))"

text \<open>
  \<open>downloadZip\<close> from the finished workbook (the bytes the spreadsheet library wrote,
  a parameter) to the archive handed to the compressor, with \<open>failedFiles\<close>.  The
  status callback and the browser download are effects on the page and are left out.
\<close>

record export =
  archive :: zip
  failedFiles :: "string list"

definition manifest_note :: "string list \<Rightarrow> string" where
  "manifest_note failed =
     ''The following files could not be downloaded (storage permission or network issue):''
     @ [CHR 0x0A, CHR 0x0A] @ join [CHR 0x0A] failed"

definition downloadZip ::
  "'w signer \<Rightarrow> 'w fetcher \<Rightarrow> bytes \<Rightarrow> obj list \<Rightarrow> obj list \<Rightarrow> 'w
     \<Rightarrow> (error + export) \<times> 'w" where
  "downloadZip sg fe excelBuffer abstracts payments w =
     (let z = zip_file ''conference_data.xlsx'' (Workbook excelBuffer) [];
          absWithFiles = array_filter (\<lambda>row. truthy (field row ''_file_path'')) abstracts
      in case (if length absWithFiles > 0
               then abstracts_loop sg fe absWithFiles (zip_folder ''abstracts'' z, []) w
               else (Inr (z, []), w)) of
           (Inl e, w1) \<Rightarrow> (Inl e, w1)
         | (Inr st1, w1) \<Rightarrow>
             (let payWithFiles = array_filter (\<lambda>row. truthy (field row ''_file_path'')) payments
              in case (if length payWithFiles > 0
                       then payments_loop sg fe payWithFiles st1 w1
                       else (Inr st1, w1)) of
                   (Inl e, w2) \<Rightarrow> (Inl e, w2)
                 | (Inr (z2, failed), w2) \<Rightarrow>
                     (let z3 = (if length failed > 0
                                then zip_file ''DOWNLOAD_ERRORS.txt'' (Text (manifest_note failed)) z2
                                else z2)
                      in (Inr \<lparr>archive = z3, failedFiles = failed\<rparr>, w2))))"

text \<open>
  Asking for a list of files one after another, whatever each answer is: the answers
  in order, and the world afterwards.
\<close>

fun fetch_each ::
  "'w signer \<Rightarrow> 'w fetcher \<Rightarrow> (string \<times> string) list \<Rightarrow> 'w \<Rightarrow> bytes option list \<times> 'w" where
  "fetch_each sg fe [] w = ([], w)"
| "fetch_each sg fe ((bucketName, path) # reqs) w =
     (case fetchStorageFile sg fe bucketName path w of
        (r, w') \<Rightarrow> (case fetch_each sg fe reqs w' of (rs, w'') \<Rightarrow> (r # rs, w'')))"

section \<open>Notions used to state the properties\<close>

text \<open>A column with neither flag set.\<close>

definition unflagged :: "ColumnDef \<Rightarrow> bool" where
  "unflagged c = (\<not> flag (excelOnly c) \<and> \<not> flag (uiOnly c))"

text \<open>The scalar and the boolean fields of a registration.\<close>

definition REGISTRATION_SCALARS :: "string list" where
  "REGISTRATION_SCALARS =
     [''id'', ''created_at'', ''updated_at'', ''first_name'', ''last_name'', ''email'',
      ''affiliation'', ''country'', ''registration_type'', ''abstract_intent'']"

definition REGISTRATION_BOOLEANS :: "string list" where
  "REGISTRATION_BOOLEANS = [''payment_confirmed'', ''mailing_consent'', ''gdpr_consent'']"

text \<open>
  The string form of a value and of the elements of an array: the text that \<open>String\<close>
  gives, where it gives one.
\<close>

definition text_of :: "jsval \<Rightarrow> string" where
  "text_of v = (case js_String v of Inl e \<Rightarrow> [] | Inr s \<Rightarrow> s)"

definition elem_texts :: "jsval list \<Rightarrow> string list" where
  "elem_texts xs = (case elem_strings xs of Inl e \<Rightarrow> [] | Inr ss \<Rightarrow> ss)"

text \<open>
  A value that can be turned into text: it is not an object with an own \<open>toString\<close>
  field, nor an array that holds such an object, directly or inside nested arrays.
  The fields of an object do not matter, since its text is \<open>[object Object]\<close>
  whatever they hold.
\<close>

fun plain :: "jsval \<Rightarrow> bool"
  and plains :: "jsval list \<Rightarrow> bool" where
  "plain (JObj kvs) = (''toString'' \<notin> set (map fst kvs))"
| "plain (JArr xs) = plains xs"
| "plain v = True"
| "plains [] = True"
| "plains (x # xs) = (plain x \<and> plains xs)"

text \<open>
  The general coercion rule in the specification's words: the empty string for \<open>null\<close>,
  \<open>undefined\<close> or an absent field, the value's string form otherwise.
\<close>

definition spec_scalar :: "jsval \<Rightarrow> jsval" where
  "spec_scalar v = (if v = JNull \<or> v = JUndefined then JStr '''' else JStr (text_of v))"

text \<open>
  The text of sub-field \<open>k\<close> of a decoded organizer: the string form of the field of a
  record, the empty string when the field is missing or \<open>null\<close> and when the value is
  not a record.
\<close>

definition sub_field_text :: "jsval \<Rightarrow> string \<Rightarrow> string" where
  "sub_field_text parsed k =
     (case parsed of
        JObj kvs \<Rightarrow> if nullish (field kvs k) then '''' else text_of (field kvs k)
      | _ \<Rightarrow> '''')"

text \<open>The five prefixed keys, in the order of \<open>ORGANIZER_FIELDS\<close>, with given texts.\<close>

definition organizer_row :: "string \<Rightarrow> (string \<Rightarrow> string) \<Rightarrow> obj" where
  "organizer_row pfx f =
     [(pfx @ ''_email'', JStr (f ''email'')),
      (pfx @ ''_country'', JStr (f ''country'')),
      (pfx @ ''_lastName'', JStr (f ''lastName'')),
      (pfx @ ''_firstName'', JStr (f ''firstName'')),
      (pfx @ ''_affiliation'', JStr (f ''affiliation''))]"




text \<open>The call returns, and its result satisfies \<open>P\<close>.\<close>

definition returns :: "error + 'a \<Rightarrow> ('a \<Rightarrow> bool) \<Rightarrow> bool" where
  "returns r P = (case r of Inl e \<Rightarrow> False | Inr x \<Rightarrow> P x)"

text \<open>Not a record: any value but an object with named fields.\<close>

fun is_record :: "jsval \<Rightarrow> bool" where
  "is_record (JObj kvs) = True"
| "is_record v = False"

text \<open>
  Sub-field \<open>k\<close> of a decoded organizer: the field of a record, \<open>undefined\<close> for any
  other value.
\<close>

definition sub_field :: "jsval \<Rightarrow> string \<Rightarrow> jsval" where
  "sub_field parsed k = (case parsed of JObj kvs \<Rightarrow> field kvs k | _ \<Rightarrow> JUndefined)"



text \<open>
  What \<open>JSON.parse\<close> answers on the texts of the examples below; any other text is
  taken as rejected, as \<open>{not json\<close> and \<open>[oops\<close> are.
\<close>

definition sample_parse :: json_parse where
  \<open>sample_parse =
     map_of
       [(''["a","b"]'', JArr [JStr ''a'', JStr ''b'']),
        (''42'', JNum (Number False ''42'')),
        (''"abc"'', JStr ''abc''),
        (''[1,2]'', JArr [JNum (Number False ''1''), JNum (Number False ''2'')]),
        (''{"email":"a@b.com"}'', JObj [(''email'', JStr ''a@b.com'')]),
        (''[{"toString":1}]'', JArr [JObj [(''toString'', JNum (Number False ''1''))]]),
        (''{"email":{"toString":1}}'',
           JObj [(''email'', JObj [(''toString'', JNum (Number False ''1''))])])]\<close>

text \<open>
  The display label in the specification's words: the final segment of the path after
  the last slash or backslash, and the whole path when that segment is empty.
\<close>

definition final_segment :: "string \<Rightarrow> string" where
  "final_segment s =
     (let seg = rev (takeWhile (\<lambda>c. c \<noteq> CHR ''/'' \<and> c \<noteq> CHR 0x5C) (rev s))
      in if seg = [] then s else seg)"

text \<open>
  The sanitized owner name in the specification's words: every \<open>@\<close> becomes \<open>_at_\<close>,
  every other character outside the class becomes an underscore.
\<close>

definition sanitize :: "string \<Rightarrow> string" where
  "sanitize s =
     concat (map (\<lambda>c. if c = CHR ''@'' then ''_at_'' else if safe_char c then [c] else ''_'') s)"

text \<open>
  A transformed row as the export expects it: \<open>email\<close> and \<open>_file_path\<close> are strings, or
  falsy (absent).
\<close>

definition flat_row :: "obj \<Rightarrow> bool" where
  "flat_row row =
     ((\<not> truthy (field row ''email'') \<or> typeof (field row ''email'') = ''string'')
      \<and> (\<not> truthy (field row ''_file_path'') \<or> typeof (field row ''_file_path'') = ''string''))"

text \<open>The rows that the export keeps: those with a truthy \<open>_file_path\<close>.\<close>

definition has_file :: "obj \<Rightarrow> bool" where
  "has_file row = truthy (field row ''_file_path'')"

text \<open>The owner of a row, sanitized; \<open>unknown\<close> when the row has no email.\<close>

definition owner_of :: "obj \<Rightarrow> string" where
  "owner_of row =
     (case field row ''email'' of
        JStr e \<Rightarrow> if e = [] then ''unknown'' else sanitize e
      | _ \<Rightarrow> ''unknown'')"

definition path_of :: "obj \<Rightarrow> string" where
  "path_of row = text_of (field row ''_file_path'')"

text \<open>The names under which the attachments of a row are stored in the archive.\<close>

definition abstract_entry :: "obj \<Rightarrow> string" where
  "abstract_entry row = ''abstracts/'' @ owner_of row @ ''_'' @ final_segment (path_of row)"

definition payment_folder :: "obj \<Rightarrow> string" where
  "payment_folder row = ''payment_receipts/'' @ owner_of row @ ''/''"

definition payment_entry :: "obj \<Rightarrow> string" where
  "payment_entry row = ''payment_receipts/'' @ owner_of row @ ''/'' @ final_segment (path_of row)"

text \<open>The lines that record a failed attachment.\<close>

definition abstract_label :: "obj \<Rightarrow> string" where
  "abstract_label row = ''abstracts/'' @ path_of row"

definition payment_label :: "obj \<Rightarrow> string" where
  "payment_label row = ''payment_receipts/'' @ owner_of row @ ''/'' @ path_of row"

text \<open>
  Of a list of labels and the answers to the fetches, in the same order: the labels
  whose fetch returned \<open>null\<close>, and those whose fetch returned bytes.
\<close>

definition failed_of :: "string list \<Rightarrow> bytes option list \<Rightarrow> string list" where
  "failed_of labels outs = map fst (filter (\<lambda>(l, out). out = None) (zip labels outs))"

definition stored_of :: "string list \<Rightarrow> bytes option list \<Rightarrow> string list" where
  "stored_of names outs = map fst (filter (\<lambda>(n, out). out \<noteq> None) (zip names outs))"

text \<open>
  The attachments of an export in the order they are processed, abstracts first: the
  storage requests, the failure labels and the archive names.
\<close>

definition attachment_requests :: "obj list \<Rightarrow> obj list \<Rightarrow> (string \<times> string) list" where
  "attachment_requests abstracts payments =
     map (\<lambda>r. (''abstracts'', path_of r)) (filter has_file abstracts)
     @ map (\<lambda>r. (''payment-receipts'', path_of r)) (filter has_file payments)"

definition failure_labels :: "obj list \<Rightarrow> obj list \<Rightarrow> string list" where
  "failure_labels abstracts payments =
     map abstract_label (filter has_file abstracts) @ map payment_label (filter has_file payments)"

definition entry_names :: "obj list \<Rightarrow> obj list \<Rightarrow> string list" where
  "entry_names abstracts payments =
     map abstract_entry (filter has_file abstracts) @ map payment_entry (filter has_file payments)"

text \<open>
  A sample export.  The world counts the calls made.  The storage throws for the
  bucket \<open>offline\<close> and refuses to sign \<open>abstracts/denied.pdf\<close>; the HTTP collaborator
  serves \<open>abstracts/ok.pdf\<close>, breaks off the body of \<open>abstracts/cut.pdf\<close>, answers 404
  for \<open>receipts/gone.png\<close> and throws for any other URL.
\<close>

definition sample_signer :: "nat signer" where
  "sample_signer bucketName path w =
     (if bucketName = ''offline'' then Inl TypeError
      else if path = ''abstracts/denied.pdf''
      then Inr \<lparr>signed_error = Some ''Object not found'', signed_url = None\<rparr>
      else Inr \<lparr>signed_error = None,
                signed_url = Some (''https://storage/'' @ bucketName @ ''/'' @ path)\<rparr>,
      w + 1)"

definition sample_fetch :: "nat fetcher" where
  "sample_fetch url w =
     (if url = ''https://storage/abstracts/abstracts/ok.pdf''
      then Inr \<lparr>ok = True, status = 200, arrayBuffer = Inr [37, 80, 68, 70]\<rparr>
      else if url = ''https://storage/abstracts/abstracts/cut.pdf''
      then Inr \<lparr>ok = True, status = 200, arrayBuffer = Inl TypeError\<rparr>
      else if url = ''https://storage/payment-receipts/receipts/gone.png''
      then Inr \<lparr>ok = False, status = 404, arrayBuffer = Inr []\<rparr>
      else Inl TypeError,
      w + 1)"

definition sample_abstracts :: "obj list" where
  "sample_abstracts =
     [[(''email'', JStr ''a@b.com''), (''_file_path'', JStr ''abstracts/denied.pdf'')],
      [(''email'', JStr ''c@d.org''), (''_file_path'', JStr ''abstracts/ok.pdf'')],
      [(''email'', JStr ''e@f.net''), (''_file_path'', JStr '''')]]"

definition sample_payments :: "obj list" where
  "sample_payments =
     [[(''email'', JStr ''a@b.com''), (''_file_path'', JStr ''receipts/gone.png'')]]"

section \<open>Properties\<close>

lemma filter_loop_eq: "filter_loop p xs acc = acc @ filter p xs"
  by (induction xs arbitrary: acc) simp_all

lemma array_filter_eq: "array_filter p xs = filter p xs"
  by (simp add: array_filter_def filter_loop_eq)

subsection \<open>Objects\<close>

lemma js_or_defined [simp]: "js_or v (JStr s) \<noteq> JUndefined"
  by (cases v) (simp_all add: js_or_def)


lemma obj_assign_Nil [simp]: "obj_assign target [] = target"
  by (simp add: obj_assign_def)

lemma obj_assign_Cons [simp]:
  "obj_assign target ((k, v) # src) = obj_assign (obj_set k v target) src"
  by (simp add: obj_assign_def)


subsection \<open>The organizer blob and the keywords\<close>

lemma js_String_plain:
  "js_String v = (if plain v then Inr (text_of v) else Inl TypeError)"
  "elem_strings xs = (if plains xs then Inr (elem_texts xs) else Inl TypeError)"
proof (induction v and xs rule: js_String_elem_strings.induct)
  case (6 xs)
  show ?case
  proof (cases "plains xs")
    case True
    with 6 obtain ss where "elem_strings xs = Inr ss" by simp
    with True show ?thesis by (simp add: text_of_def)
  next
    case False
    with 6 have "elem_strings xs = Inl TypeError" by simp
    with False show ?thesis by simp
  qed
next
  case (7 kvs)
  then show ?case by (simp add: text_of_def)
next
  case (9 x xs)
  have nl: "plain x" if "nullish x"
    using that by (cases x) simp_all
  let ?h = "if nullish x then Inr [] else js_String x"
  show ?case
  proof (cases ?h)
    case (Inl e)
    then have n: "\<not> nullish x" and s: "js_String x = Inl e"
      by (simp_all split: if_splits)
    from 9(1) [OF n] s have "\<not> plain x" "e = TypeError"
      by (simp_all split: if_splits)
    with n s show ?thesis by simp
  next
    case (Inr b)
    have px: "plain x"
    proof (cases "nullish x")
      case True
      then show ?thesis by (rule nl)
    next
      case False
      with Inr have "js_String x = Inr b" by simp
      with 9(1) [OF False] show ?thesis by (simp split: if_splits)
    qed
    show ?thesis
    proof (cases "plains xs")
      case True
      with 9(2) [OF Inr] obtain ss where "elem_strings xs = Inr ss" by simp
      with True px Inr show ?thesis by (simp add: elem_texts_def)
    next
      case False
      with 9(2) [OF Inr] have "elem_strings xs = Inl TypeError" by simp
      with False Inr show ?thesis by simp
    qed
  qed
qed (simp_all add: text_of_def elem_texts_def)

lemma js_join_plain:
  "js_join (JArr xs) sep = (if plains xs then Inr (join sep (elem_texts xs)) else Inl TypeError)"
  by (simp add: js_String_plain(2))

lemma text_of_simps [simp]:
  "text_of JUndefined = ''undefined''"
  "text_of JNull = ''null''"
  "text_of (JBool b) = (if b then ''true'' else ''false'')"
  "text_of (JNum n) = shown n"
  "text_of (JStr s) = s"
  by (simp_all add: text_of_def)

lemma organizer_value_eq:
  "plain (sub_field parsed k)
   \<Longrightarrow> organizer_value parsed k = Inr (JStr (sub_field_text parsed k))"
  by (cases parsed)
    (simp_all add: organizer_value_def sub_field_text_def sub_field_def bindE_def
      js_String_plain(1))

lemma organizer_value_raises:
  "\<not> plain (sub_field parsed k) \<Longrightarrow> organizer_value parsed k = Inl TypeError"
  by (cases parsed; cases "sub_field parsed k")
    (auto simp: organizer_value_def sub_field_def bindE_def js_String_plain(1))

lemma flatten_loop_fields:
  "list_all (\<lambda>k. plain (sub_field parsed k)) ORGANIZER_FIELDS
   \<Longrightarrow> flatten_loop parsed pfx ORGANIZER_FIELDS []
       = Inr (organizer_row pfx (sub_field_text parsed))"
  by (simp add: ORGANIZER_FIELDS_def organizer_value_eq bindE_def obj_set_def organizer_row_def)

lemma organizer_parsed_cases:
  "organizer_parsed parse JUndefined = Inr JNull"
  "organizer_parsed parse JNull = Inr JNull"
  "organizer_parsed parse (JBool b) = Inr JNull"
  "organizer_parsed parse (JNum n) = Inr JNull"
  "organizer_parsed parse (JArr xs) = Inr (JArr xs)"
  "organizer_parsed parse (JObj kvs) = Inr (JObj kvs)"
  "organizer_parsed parse (JStr s) =
     Inr (if trim s = [] then JNull else (case parse (trim s) of None \<Rightarrow> JNull | Some v \<Rightarrow> v))"
  by (simp_all add: organizer_parsed_def bindE_def split: option.splits)


lemma flattenOrganizer_eq:
  "organizer_parsed parse blob = Inr p
   \<Longrightarrow> list_all (\<lambda>k. plain (sub_field p k)) ORGANIZER_FIELDS
   \<Longrightarrow> flattenOrganizer parse blob pfx = Inr (organizer_row pfx (sub_field_text p))"
  by (simp add: flattenOrganizer_def bindE_def flatten_loop_fields)



lemma sub_field_text_empty: "\<not> is_record p \<Longrightarrow> sub_field_text p = (\<lambda>k. '''')"
  by (cases p) (simp_all add: sub_field_text_def fun_eq_iff)

lemma sub_field_empty: "\<not> is_record p \<Longrightarrow> sub_field p k = JUndefined"
  by (cases p) (simp_all add: sub_field_def)

lemma flattenOrganizer_empty:
  "organizer_parsed parse blob = Inr p \<Longrightarrow> \<not> is_record p
   \<Longrightarrow> flattenOrganizer parse blob pfx = Inr (organizer_row pfx (\<lambda>k. ''''))"
  using flattenOrganizer_eq [of parse blob p pfx]
  by (simp add: sub_field_empty sub_field_text_empty list_all_iff)



subsection \<open>The row of a thematic session\<close>




subsection \<open>The rows of the registration phase\<close>






subsection \<open>Path labels\<close>

lemma split_on_nonempty [simp]: "split_on c xs \<noteq> []"
  by (induction xs) (auto split: list.splits)

lemma split_on_single: "c \<notin> set xs \<Longrightarrow> split_on c xs = [xs]"
  by (induction xs) auto

lemma split_on_many: "c \<in> set xs \<Longrightarrow> length (split_on c xs) > 1"
proof (induction xs)
  case Nil
  then show ?case by simp
next
  case (Cons x xs)
  show ?case
  proof (cases "x = c")
    case True
    then show ?thesis by (simp add: Suc_lessI)
  next
    case False
    with Cons.prems have "c \<in> set xs" by simp
    from Cons.IH [OF this] False show ?thesis
      by (cases "split_on c xs") auto
  qed
qed

lemma last_split_on: "last (split_on c xs) = rev (takeWhile (\<lambda>x. x \<noteq> c) (rev xs))"
proof (induction xs)
  case Nil
  then show ?case by simp
next
  case (Cons x xs)
  show ?case
  proof (cases "x = c")
    case True
    then show ?thesis using Cons.IH by (simp add: takeWhile_append)
  next
    case False
    show ?thesis
    proof (cases "c \<in> set xs")
      case True
      from split_on_many [OF True] obtain p q ps where ps: "split_on c xs = p # q # ps"
        by (cases "split_on c xs"; cases "tl (split_on c xs)") auto
      from True have "\<not> (\<forall>y \<in> set (rev xs). y \<noteq> c)" by simp
      then have tw: "takeWhile (\<lambda>x. x \<noteq> c) (rev xs @ [x]) = takeWhile (\<lambda>x. x \<noteq> c) (rev xs)"
        by (auto simp: takeWhile_append1)
      from Cons.IH False ps show ?thesis by (simp add: tw)
    next
      case no: False
      then have tw: "takeWhile (\<lambda>x. x \<noteq> c) (rev xs @ [x]) = rev xs @ [x]"
        using False by (auto simp: takeWhile_append2)
      from no False show ?thesis by (simp add: split_on_single tw)
    qed
  qed
qed

lemma last_parts_slashes:
  "last (split_on CHR ''/'' (slashes s))
     = rev (takeWhile (\<lambda>c. c \<noteq> CHR ''/'' \<and> c \<noteq> CHR 0x5C) (rev s))"
proof -
  let ?g = "\<lambda>c. if c = CHR 0x5C then CHR ''/'' else c"
  let ?P = "\<lambda>c. c \<noteq> CHR ''/'' \<and> c \<noteq> CHR 0x5C"
  have same: "(\<lambda>x. x \<noteq> CHR ''/'') \<circ> ?g = ?P"
    by (auto simp: fun_eq_iff)
  have "takeWhile (\<lambda>x. x \<noteq> CHR ''/'') (rev (map ?g s))
      = takeWhile (\<lambda>x. x \<noteq> CHR ''/'') (map ?g (rev s))"
    by (simp only: rev_map)
  also have "\<dots> = map ?g (takeWhile ((\<lambda>x. x \<noteq> CHR ''/'') \<circ> ?g) (rev s))"
    by (rule takeWhile_map)
  also have "\<dots> = map ?g (takeWhile ?P (rev s))"
    by (simp only: same)
  also have "\<dots> = takeWhile ?P (rev s)"
    by (rule map_idI) (auto dest: set_takeWhileD)
  finally show ?thesis
    by (simp add: last_split_on slashes_def)
qed

lemma path_label:
  "js_or (last_part (split_on CHR ''/'' (slashes s))) (JStr s) = JStr (final_segment s)"
  by (simp add: last_part_def js_or_def final_segment_def last_parts_slashes Let_def)

lemma fileLabel_eq: "s \<noteq> [] \<Longrightarrow> fileLabel (JStr s) = Inr (JStr (final_segment s))"
  by (simp add: fileLabel_def bindE_def path_label)

lemma storageBasename_eq: "storageBasename (JStr s) = Inr (JStr (final_segment s))"
  by (simp add: storageBasename_def bindE_def path_label)

subsection \<open>Batches\<close>













text \<open>
  The rows that the normalizers hand to the export are flat whenever the raw email is
  a string or missing: a raw \<open>file_path\<close> of another type never gets that far.
\<close>

lemma normalized_rows_flat:
  assumes email: "\<not> truthy (field raw ''email'') \<or> typeof (field raw ''email'') = ''string''"
  shows "transformAbstract raw = Inr row \<Longrightarrow> flat_row row"
    and "transformPayment raw = Inr row \<Longrightarrow> flat_row row"
proof -
  let ?label = "if truthy (field raw ''file_path'') then fileLabel (field raw ''file_path'')
            else Inr (JStr '''')"
  have e: "\<not> truthy (js_or (field raw ''email'') (JStr ''''))
      \<or> typeof (js_or (field raw ''email'') (JStr '''')) = ''string''"
    using email by (simp add: js_or_def)
  have p: "\<not> truthy (js_or (field raw ''file_path'') (JStr ''''))
      \<or> typeof (js_or (field raw ''file_path'') (JStr '''')) = ''string''"
    if "?label = Inr l" for l
    using that
    by (cases "field raw ''file_path''")
      (auto simp: js_or_def fileLabel_def bindE_def split: if_splits)
  have look: "flat_row r"
    if "map_of r ''email'' = Some a" "map_of r ''_file_path'' = Some b"
      "\<not> truthy a \<or> typeof a = ''string''" "\<not> truthy b \<or> typeof b = ''string''" for r a b
    using that by (simp add: flat_row_def field_def)
  show "flat_row row" if t: "transformAbstract raw = Inr row"
  proof (cases ?label)
    case (Inl err)
    with t show ?thesis by (simp add: transformAbstract_def bindE_def)
  next
    case (Inr l)
    with t have "map_of row ''email'' = Some (js_or (field raw ''email'') (JStr ''''))"
      "map_of row ''_file_path'' = Some (js_or (field raw ''file_path'') (JStr ''''))"
      by (auto simp: transformAbstract_def bindE_def)
    then show ?thesis using e p [OF Inr] by (rule look)
  qed
  show "flat_row row" if t: "transformPayment raw = Inr row"
  proof (cases ?label)
    case (Inl err)
    with t show ?thesis by (simp add: transformPayment_def bindE_def)
  next
    case (Inr l)
    with t have "map_of row ''email'' = Some (js_or (field raw ''email'') (JStr ''''))"
      "map_of row ''_file_path'' = Some (js_or (field raw ''file_path'') (JStr ''''))"
      by (auto simp: transformPayment_def bindE_def)
    then show ?thesis using e p [OF Inr] by (rule look)
  qed
qed

subsection \<open>Owner names\<close>

lemma safe_char_simps [simp]:
  "safe_char CHR ''_''" "safe_char CHR ''a''" "safe_char CHR ''t''" "\<not> safe_char CHR ''@''"
  by (simp_all add: safe_char_def)

lemma replace_sanitize: "replace_unsafe (replace_at s) = sanitize s"
  by (induction s) (simp_all add: replace_unsafe_def replace_at_def sanitize_def)

lemma sanitize_safe: "list_all safe_char (sanitize s)"
  by (induction s) (simp_all add: sanitize_def)

lemma unknown_sanitize: "sanitize ''unknown'' = ''unknown''"
  by (simp add: sanitize_def safe_char_def)

lemma safeEmail_string:
  "safeEmail (JStr e) = Inr (if e = [] then ''unknown'' else sanitize e)"
  by (simp add: safeEmail_def js_or_def replace_sanitize unknown_sanitize)

lemma safeEmail_owner:
  "\<not> truthy (field row ''email'') \<or> typeof (field row ''email'') = ''string''
   \<Longrightarrow> safeEmail (field row ''email'') = Inr (owner_of row)"
  by (cases "field row ''email''")
    (auto simp: safeEmail_def js_or_def owner_of_def replace_sanitize unknown_sanitize)

lemma owner_safe: "list_all safe_char (owner_of row)"
  by (cases "field row ''email''")
    (auto simp: owner_of_def sanitize_safe safe_char_def)

subsection \<open>The archive loops\<close>

lemma zip_file_names [simp]: "fst ` set (zip_file n c z) = insert n (fst ` set z)"
proof -
  have g: "fst ((\<lambda>(n', c'). if n' = n then (n', c) else (n', c')) p) = fst p" for p
    by (cases p) simp
  have "fst ` set (map (\<lambda>(n', c'). if n' = n then (n', c) else (n', c')) z) = fst ` set z"
    by (simp add: image_image g)
  then show ?thesis
    by (auto simp: zip_file_def)
qed

lemma zip_folder_names [simp]:
  "fst ` set (zip_folder n z) = insert (n @ ''/'') (fst ` set z)"
  by (auto simp: zip_folder_def)

lemma failed_of_Nil [simp]: "failed_of [] outs = []" "failed_of labels [] = []"
  by (simp_all add: failed_of_def)

lemma failed_of_Cons [simp]:
  "failed_of (l # ls) (out # outs) = (if out = None then l # failed_of ls outs else failed_of ls outs)"
  by (simp add: failed_of_def)

lemma stored_of_Nil [simp]: "stored_of [] outs = []" "stored_of names [] = []"
  by (simp_all add: stored_of_def)

lemma stored_of_Cons [simp]:
  "stored_of (n # ns) (out # outs) = (if out = None then stored_of ns outs else n # stored_of ns outs)"
  by (simp add: stored_of_def)

lemma failed_of_append:
  "length ls = length outs \<Longrightarrow> failed_of (ls @ ls') (outs @ outs') = failed_of ls outs @ failed_of ls' outs'"
  by (simp add: failed_of_def)

lemma stored_of_append:
  "length ns = length outs \<Longrightarrow> stored_of (ns @ ns') (outs @ outs') = stored_of ns outs @ stored_of ns' outs'"
  by (simp add: stored_of_def)

lemma fetch_each_length: "fetch_each sg fe reqs w = (outs, w') \<Longrightarrow> length outs = length reqs"
proof (induction reqs arbitrary: w outs w')
  case Nil
  then show ?case by simp
next
  case (Cons req reqs)
  obtain b p where req: "req = (b, p)" by (cases req)
  obtain r w1 where f: "fetchStorageFile sg fe b p w = (r, w1)" by (cases "fetchStorageFile sg fe b p w")
  obtain rs w2 where g: "fetch_each sg fe reqs w1 = (rs, w2)" by (cases "fetch_each sg fe reqs w1")
  from Cons.prems have "outs = r # rs" by (simp add: req f g)
  with Cons.IH [OF g] show ?case by simp
qed

lemma fetch_each_append:
  "fetch_each sg fe xs w = (outs1, w1) \<Longrightarrow> fetch_each sg fe ys w1 = (outs2, w2)
   \<Longrightarrow> fetch_each sg fe (xs @ ys) w = (outs1 @ outs2, w2)"
proof (induction xs arbitrary: w outs1)
  case Nil
  then show ?case by simp
next
  case (Cons req xs)
  obtain b p where req: "req = (b, p)" by (cases req)
  obtain r w' where f: "fetchStorageFile sg fe b p w = (r, w')" by (cases "fetchStorageFile sg fe b p w")
  obtain rs w'' where g: "fetch_each sg fe xs w' = (rs, w'')" by (cases "fetch_each sg fe xs w'")
  from Cons.prems(1) have o: "outs1 = r # rs" and w: "w'' = w1" by (simp_all add: req f g)
  from Cons.IH [OF g [unfolded w] Cons.prems(2)] show ?case
    by (simp add: req f o)
qed

lemma path_flat:
  assumes "flat_row row" "has_file row"
  shows "\<exists>p. p \<noteq> [] \<and> field row ''_file_path'' = JStr p \<and> path_of row = p"
  using assms by (cases "field row ''_file_path''") (auto simp: flat_row_def has_file_def path_of_def)

lemma basename_flat:
  assumes "flat_row row" "has_file row"
  shows "storageBasename (field row ''_file_path'') = Inr (JStr (final_segment (path_of row)))"
  using path_flat [OF assms] by (auto simp: storageBasename_eq)

lemma zipFilename_flat:
  assumes "flat_row row" "has_file row"
  shows "zipFilename (field row ''email'') (field row ''_file_path'')
           = Inr (owner_of row @ ''_'' @ final_segment (path_of row))"
proof -
  have "safeEmail (field row ''email'') = Inr (owner_of row)"
    using assms(1) by (intro safeEmail_owner) (simp add: flat_row_def)
  then show ?thesis
    by (simp add: zipFilename_def bindE_def basename_flat [OF assms])
qed

lemma abstracts_loop_flat:
  assumes "\<forall>row \<in> set rows. flat_row row \<and> has_file row"
  shows "\<exists>z' outs w'.
      fetch_each sg fe (map (\<lambda>r. (''abstracts'', path_of r)) rows) w = (outs, w')
      \<and> abstracts_loop sg fe rows (z, failed) w
          = (Inr (z', failed @ failed_of (map abstract_label rows) outs), w')
      \<and> fst ` set z' = fst ` set z \<union> set (stored_of (map abstract_entry rows) outs)"
  using assms
proof (induction rows arbitrary: z failed w)
  case Nil
  then show ?case by simp
next
  case (Cons row rows)
  from Cons.prems have fl: "flat_row row" "has_file row"
    and rest: "\<forall>row \<in> set rows. flat_row row \<and> has_file row" by simp_all
  have p: "js_String (field row ''_file_path'') = Inr (path_of row)"
    using path_flat [OF fl] by auto
  obtain r w1 where f: "fetchStorageFile sg fe ''abstracts'' (path_of row) w = (r, w1)"
    by (cases "fetchStorageFile sg fe ''abstracts'' (path_of row) w")
  have step: "abstracts_loop sg fe (row # rows) (z, failed) w =
      (case r of
         Some b \<Rightarrow> abstracts_loop sg fe rows (zip_file (abstract_entry row) (Bytes b) z, failed) w1
       | None \<Rightarrow> abstracts_loop sg fe rows (z, failed @ [abstract_label row]) w1)"
    by (simp add: zipFilename_flat [OF fl] p f abstract_entry_def abstract_label_def
        split: option.splits)
  show ?case
  proof (cases r)
    case None
    from Cons.IH [OF rest, of w1 z "failed @ [abstract_label row]"]
    obtain z' outs w' where
      "fetch_each sg fe (map (\<lambda>r. (''abstracts'', path_of r)) rows) w1 = (outs, w')"
      "abstracts_loop sg fe rows (z, failed @ [abstract_label row]) w1
          = (Inr (z', (failed @ [abstract_label row]) @ failed_of (map abstract_label rows) outs), w')"
      "fst ` set z' = fst ` set z \<union> set (stored_of (map abstract_entry rows) outs)"
      by blast
    then show ?thesis
      unfolding step by (simp add: f None)
  next
    case (Some b)
    from Cons.IH [OF rest, of w1 "zip_file (abstract_entry row) (Bytes b) z" failed]
    obtain z' outs w' where
      "fetch_each sg fe (map (\<lambda>r. (''abstracts'', path_of r)) rows) w1 = (outs, w')"
      "abstracts_loop sg fe rows (zip_file (abstract_entry row) (Bytes b) z, failed) w1
          = (Inr (z', failed @ failed_of (map abstract_label rows) outs), w')"
      "fst ` set z' = fst ` set (zip_file (abstract_entry row) (Bytes b) z)
          \<union> set (stored_of (map abstract_entry rows) outs)"
      by blast
    then show ?thesis
      unfolding step by (simp add: f Some)
  qed
qed

lemma payments_loop_flat:
  assumes "\<forall>row \<in> set rows. flat_row row \<and> has_file row"
  shows "\<exists>z' outs w'.
      fetch_each sg fe (map (\<lambda>r. (''payment-receipts'', path_of r)) rows) w = (outs, w')
      \<and> payments_loop sg fe rows (z, failed) w
          = (Inr (z', failed @ failed_of (map payment_label rows) outs), w')
      \<and> fst ` set z' = fst ` set z \<union> payment_folder ` set rows
            \<union> set (stored_of (map payment_entry rows) outs)"
  using assms
proof (induction rows arbitrary: z failed w)
  case Nil
  then show ?case by simp
next
  case (Cons row rows)
  from Cons.prems have fl: "flat_row row" "has_file row"
    and rest: "\<forall>row \<in> set rows. flat_row row \<and> has_file row" by simp_all
  have p: "js_String (field row ''_file_path'') = Inr (path_of row)"
    using path_flat [OF fl] by auto
  have e: "safeEmail (field row ''email'') = Inr (owner_of row)"
    using fl(1) by (intro safeEmail_owner) (simp add: flat_row_def)
  define zf where "zf = zip_folder (''payment_receipts/'' @ owner_of row) z"
  have zf_names: "fst ` set zf = insert (payment_folder row) (fst ` set z)"
    by (simp add: zf_def payment_folder_def)
  obtain r w1 where f: "fetchStorageFile sg fe ''payment-receipts'' (path_of row) w = (r, w1)"
    by (cases "fetchStorageFile sg fe ''payment-receipts'' (path_of row) w")
  have step: "payments_loop sg fe (row # rows) (z, failed) w =
      (case r of
         Some b \<Rightarrow> payments_loop sg fe rows (zip_file (payment_entry row) (Bytes b) zf, failed) w1
       | None \<Rightarrow> payments_loop sg fe rows (zf, failed @ [payment_label row]) w1)"
    by (simp add: e basename_flat [OF fl] p f zf_def payment_entry_def payment_label_def
        bindE_def split: option.splits)
  show ?case
  proof (cases r)
    case None
    from Cons.IH [OF rest, of w1 zf "failed @ [payment_label row]"]
    obtain z' outs w' where
      "fetch_each sg fe (map (\<lambda>r. (''payment-receipts'', path_of r)) rows) w1 = (outs, w')"
      "payments_loop sg fe rows (zf, failed @ [payment_label row]) w1
          = (Inr (z', (failed @ [payment_label row]) @ failed_of (map payment_label rows) outs), w')"
      "fst ` set z' = fst ` set zf \<union> payment_folder ` set rows
            \<union> set (stored_of (map payment_entry rows) outs)"
      by blast
    then show ?thesis
      unfolding step by (simp add: f None zf_names)
  next
    case (Some b)
    from Cons.IH [OF rest, of w1 "zip_file (payment_entry row) (Bytes b) zf" failed]
    obtain z' outs w' where
      "fetch_each sg fe (map (\<lambda>r. (''payment-receipts'', path_of r)) rows) w1 = (outs, w')"
      "payments_loop sg fe rows (zip_file (payment_entry row) (Bytes b) zf, failed) w1
          = (Inr (z', failed @ failed_of (map payment_label rows) outs), w')"
      "fst ` set z' = fst ` set (zip_file (payment_entry row) (Bytes b) zf)
            \<union> payment_folder ` set rows \<union> set (stored_of (map payment_entry rows) outs)"
      by blast
    then show ?thesis
      unfolding step by (simp add: f Some zf_names) blast
  qed
qed

lemma zip_file_lookup: "map_of (zip_file n c z) n = Some c"
proof (cases "n \<in> fst ` set z")
  case True
  have "map_of (map (\<lambda>(n', c'). if n' = n then (n', c) else (n', c')) z) n = Some c"
    using True by (induction z) auto
  with True show ?thesis by (simp add: zip_file_def)
next
  case False
  then have "map_of z n = None" by (simp add: map_of_eq_None_iff)
  with False show ?thesis by (simp add: zip_file_def map_add_def)
qed



lemma files_filter:
  "array_filter (\<lambda>row. truthy (field row ''_file_path'')) rows = filter has_file rows"
proof -
  have "(\<lambda>row. truthy (field row ''_file_path'')) = has_file"
    by (simp add: has_file_def fun_eq_iff)
  then show ?thesis by (simp add: array_filter_eq)
qed

lemma downloadZip_flat:
  assumes fa: "list_all flat_row abstracts" and fp: "list_all flat_row payments"
  shows "\<exists>res outs w'.
      fetch_each sg fe
        (map (\<lambda>r. (''abstracts'', path_of r)) (filter has_file abstracts)
         @ map (\<lambda>r. (''payment-receipts'', path_of r)) (filter has_file payments)) w = (outs, w')
      \<and> downloadZip sg fe excelBuffer abstracts payments w = (Inr res, w')
      \<and> failedFiles res
          = failed_of (map abstract_label (filter has_file abstracts)
                       @ map payment_label (filter has_file payments)) outs
      \<and> fst ` set (archive res)
          = {''conference_data.xlsx''}
            \<union> (if filter has_file abstracts = [] then {} else {''abstracts/''})
            \<union> set (stored_of (map abstract_entry (filter has_file abstracts)
                               @ map payment_entry (filter has_file payments)) outs)
            \<union> payment_folder ` set (filter has_file payments)
            \<union> (if failedFiles res = [] then {} else {''DOWNLOAD_ERRORS.txt''})
      \<and> (failedFiles res \<noteq> [] \<longrightarrow>
           map_of (archive res) ''DOWNLOAD_ERRORS.txt''
             = Some (Text (manifest_note (failedFiles res))))"
proof -
  define A where "A = filter has_file abstracts"
  define P where "P = filter has_file payments"
  define z0 where "z0 = zip_file ''conference_data.xlsx'' (Workbook excelBuffer) []"
  define zA where "zA = (if A = [] then z0 else zip_folder ''abstracts'' z0)"
  have okA: "\<forall>row \<in> set A. flat_row row \<and> has_file row"
    using fa by (auto simp: A_def list_all_iff)
  have okP: "\<forall>row \<in> set P. flat_row row \<and> has_file row"
    using fp by (auto simp: P_def list_all_iff)
  obtain z1 outsA w1 where
    fA: "fetch_each sg fe (map (\<lambda>r. (''abstracts'', path_of r)) A) w = (outsA, w1)"
    and lA: "abstracts_loop sg fe A (zA, []) w
          = (Inr (z1, [] @ failed_of (map abstract_label A) outsA), w1)"
    and nA: "fst ` set z1 = fst ` set zA \<union> set (stored_of (map abstract_entry A) outsA)"
    using abstracts_loop_flat [OF okA, of sg fe w zA "[]"] by blast
  define failedA where "failedA = failed_of (map abstract_label A) outsA"
  obtain z2 outsP w2 where
    fP: "fetch_each sg fe (map (\<lambda>r. (''payment-receipts'', path_of r)) P) w1 = (outsP, w2)"
    and lP: "payments_loop sg fe P (z1, failedA) w1
          = (Inr (z2, failedA @ failed_of (map payment_label P) outsP), w2)"
    and nP: "fst ` set z2 = fst ` set z1 \<union> payment_folder ` set P
            \<union> set (stored_of (map payment_entry P) outsP)"
    using payments_loop_flat [OF okP, of sg fe w1 z1 failedA] by blast
  define failed where "failed = failedA @ failed_of (map payment_label P) outsP"
  define z3 where
    "z3 = (if failed = [] then z2
           else zip_file ''DOWNLOAD_ERRORS.txt'' (Text (manifest_note failed)) z2)"
  have lenA: "length outsA = length A"
    using fetch_each_length [OF fA] by simp
  have stageA: "(if length A > 0 then abstracts_loop sg fe A (zip_folder ''abstracts'' z0, []) w
                 else (Inr (z0, []), w)) = (Inr (z1, failedA), w1)"
  proof (cases "A = []")
    case True
    with fA lA show ?thesis by (simp add: zA_def failedA_def)
  next
    case False
    with lA show ?thesis by (simp add: zA_def failedA_def)
  qed
  have stageP: "(if length P > 0 then payments_loop sg fe P (z1, failedA) w1
                 else (Inr (z1, failedA), w1)) = (Inr (z2, failed), w2)"
  proof (cases "P = []")
    case True
    with fP lP show ?thesis by (simp add: failed_def)
  next
    case False
    with lP show ?thesis by (simp add: failed_def)
  qed
  have run: "downloadZip sg fe excelBuffer abstracts payments w
      = (Inr \<lparr>archive = z3, failedFiles = failed\<rparr>, w2)"
    unfolding downloadZip_def Let_def files_filter A_def [symmetric] P_def [symmetric]
      z0_def [symmetric] stageA prod.case sum.case stageP
    by (simp add: z3_def)
  have all: "fetch_each sg fe
      (map (\<lambda>r. (''abstracts'', path_of r)) A @ map (\<lambda>r. (''payment-receipts'', path_of r)) P) w
      = (outsA @ outsP, w2)"
    by (rule fetch_each_append [OF fA fP])
  have fl: "failed = failed_of (map abstract_label A @ map payment_label P) (outsA @ outsP)"
    by (simp add: failed_def failedA_def failed_of_append lenA)
  have st: "stored_of (map abstract_entry A @ map payment_entry P) (outsA @ outsP)
      = stored_of (map abstract_entry A) outsA @ stored_of (map payment_entry P) outsP"
    by (simp add: stored_of_append lenA)
  have names: "fst ` set z3
      = {''conference_data.xlsx''} \<union> (if A = [] then {} else {''abstracts/''})
        \<union> set (stored_of (map abstract_entry A @ map payment_entry P) (outsA @ outsP))
        \<union> payment_folder ` set P
        \<union> (if failed = [] then {} else {''DOWNLOAD_ERRORS.txt''})"
    unfolding st by (auto simp: z3_def nP nA zA_def z0_def)
  have mf: "failed \<noteq> [] \<longrightarrow>
      map_of z3 ''DOWNLOAD_ERRORS.txt'' = Some (Text (manifest_note failed))"
    by (simp add: z3_def zip_file_lookup)
  show ?thesis
    unfolding A_def [symmetric] P_def [symmetric]
    using all run fl names mf by (intro exI [of _ "\<lparr>archive = z3, failedFiles = failed\<rparr>"]
        exI [of _ "outsA @ outsP"] exI [of _ w2]) simp
qed

lemma downloadZip_export:
  assumes "list_all flat_row abstracts" "list_all flat_row payments"
  shows "\<exists>res outs w'.
      fetch_each sg fe (attachment_requests abstracts payments) w = (outs, w')
      \<and> length outs = length (attachment_requests abstracts payments)
      \<and> downloadZip sg fe excelBuffer abstracts payments w = (Inr res, w')
      \<and> failedFiles res = failed_of (failure_labels abstracts payments) outs
      \<and> fst ` set (archive res)
          = {''conference_data.xlsx''}
            \<union> (if filter has_file abstracts = [] then {} else {''abstracts/''})
            \<union> set (stored_of (entry_names abstracts payments) outs)
            \<union> payment_folder ` set (filter has_file payments)
            \<union> (if failedFiles res = [] then {} else {''DOWNLOAD_ERRORS.txt''})
      \<and> (failedFiles res \<noteq> [] \<longrightarrow>
           map_of (archive res) ''DOWNLOAD_ERRORS.txt''
             = Some (Text (manifest_note (failedFiles res))))"
  using downloadZip_flat [OF assms, of sg fe w excelBuffer]
  unfolding attachment_requests_def failure_labels_def entry_names_def
proof (elim exE conjE)
  fix res outs w'
  assume h:
    "fetch_each sg fe
        (map (\<lambda>r. (''abstracts'', path_of r)) (filter has_file abstracts)
         @ map (\<lambda>r. (''payment-receipts'', path_of r)) (filter has_file payments)) w = (outs, w')"
    "downloadZip sg fe excelBuffer abstracts payments w = (Inr res, w')"
    "failedFiles res
          = failed_of (map abstract_label (filter has_file abstracts)
                       @ map payment_label (filter has_file payments)) outs"
    "fst ` set (archive res)
          = {''conference_data.xlsx''}
            \<union> (if filter has_file abstracts = [] then {} else {''abstracts/''})
            \<union> set (stored_of (map abstract_entry (filter has_file abstracts)
                               @ map payment_entry (filter has_file payments)) outs)
            \<union> payment_folder ` set (filter has_file payments)
            \<union> (if failedFiles res = [] then {} else {''DOWNLOAD_ERRORS.txt''})"
    "failedFiles res \<noteq> [] \<longrightarrow>
           map_of (archive res) ''DOWNLOAD_ERRORS.txt''
             = Some (Text (manifest_note (failedFiles res)))"
  note len = fetch_each_length [OF h(1)]
  show "\<exists>res outs w'.
      fetch_each sg fe
        (map (\<lambda>r. (''abstracts'', path_of r)) (filter has_file abstracts)
         @ map (\<lambda>r. (''payment-receipts'', path_of r)) (filter has_file payments)) w = (outs, w')
      \<and> length outs = length (map (\<lambda>r. (''abstracts'', path_of r)) (filter has_file abstracts)
         @ map (\<lambda>r. (''payment-receipts'', path_of r)) (filter has_file payments))
      \<and> downloadZip sg fe excelBuffer abstracts payments w = (Inr res, w')
      \<and> failedFiles res = failed_of (map abstract_label (filter has_file abstracts)
                       @ map payment_label (filter has_file payments)) outs
      \<and> fst ` set (archive res)
          = {''conference_data.xlsx''}
            \<union> (if filter has_file abstracts = [] then {} else {''abstracts/''})
            \<union> set (stored_of (map abstract_entry (filter has_file abstracts)
                               @ map payment_entry (filter has_file payments)) outs)
            \<union> payment_folder ` set (filter has_file payments)
            \<union> (if failedFiles res = [] then {} else {''DOWNLOAD_ERRORS.txt''})
      \<and> (failedFiles res \<noteq> [] \<longrightarrow>
           map_of (archive res) ''DOWNLOAD_ERRORS.txt''
             = Some (Text (manifest_note (failedFiles res))))"
    by (intro exI [of _ res] exI [of _ outs] exI [of _ w'] conjI h len)
qed




subsection \<open>The sample export\<close>

lemma sample_flat: "list_all flat_row sample_abstracts" "list_all flat_row sample_payments"
  by (simp_all add: sample_abstracts_def sample_payments_def flat_row_def field_def)

lemma sample_requests:
  "attachment_requests sample_abstracts sample_payments
     = [(''abstracts'', ''abstracts/denied.pdf''), (''abstracts'', ''abstracts/ok.pdf''),
        (''payment-receipts'', ''receipts/gone.png'')]"
  by (simp add: attachment_requests_def sample_abstracts_def sample_payments_def has_file_def
      path_of_def field_def)

lemma sample_outcomes:
  "fetch_each sample_signer sample_fetch
     [(''abstracts'', ''abstracts/denied.pdf''), (''abstracts'', ''abstracts/ok.pdf''),
      (''payment-receipts'', ''receipts/gone.png'')] 0
     = ([None, Some [37, 80, 68, 70], None], 5)"
  by (simp add: fetchStorageFile_def sample_signer_def sample_fetch_def)


lemma sample_entries:
  "entry_names sample_abstracts sample_payments
     = [''abstracts/a_at_b.com_denied.pdf'', ''abstracts/c_at_d.org_ok.pdf'',
        ''payment_receipts/a_at_b.com/gone.png'']"
  "map payment_folder (filter has_file sample_payments) = [''payment_receipts/a_at_b.com/'']"
  by (simp_all add: entry_names_def sample_abstracts_def sample_payments_def has_file_def
      path_of_def field_def abstract_entry_def payment_entry_def payment_folder_def owner_of_def
      sanitize_def safe_char_def final_segment_def)

subsection \<open>Totality of the single-record normalizers\<close>




subsection \<open>Coercion of the registration fields\<close>

text \<open>
  Claim C2, as amended.  For every raw registration record, each non-boolean scalar
  field of the output is the empty string when the raw value is falsy (\<open>null\<close>,
  \<open>undefined\<close>, absent, \<open>false\<close>, zero, \<open>NaN\<close> or the empty string) and the raw value
  itself, unchanged, otherwise; so for a raw value that is \<open>null\<close>, \<open>undefined\<close>,
  absent or a string it is what the general coercion rule gives.  Each boolean field
  is \<open>Yes\<close> for \<open>true\<close>, \<open>No\<close> for \<open>false\<close> and the empty string for anything else.
\<close>

theorem registration_coercion:
  "(\<forall>k \<in> set REGISTRATION_SCALARS.
      field (transformRegistration raw) k
        = (if truthy (field raw k) then field raw k else JStr '''')
      \<and> (nullish (field raw k) \<or> typeof (field raw k) = ''string''
           \<longrightarrow> field (transformRegistration raw) k = spec_scalar (field raw k)))
   \<and> (\<forall>k \<in> set REGISTRATION_BOOLEANS.
      field (transformRegistration raw) k
        = (if field raw k = JBool True then JStr ''Yes''
           else if field raw k = JBool False then JStr ''No''
           else JStr ''''))"
proof -
  have or_spec: "js_or v (JStr '''') = spec_scalar v"
    if "nullish v \<or> typeof v = ''string''" for v
    using that by (cases v) (auto simp: js_or_def spec_scalar_def)
  have out: "field (transformRegistration raw) k = js_or (field raw k) (JStr '''')"
    if "k \<in> set REGISTRATION_SCALARS" for k
    using that by (auto simp: REGISTRATION_SCALARS_def transformRegistration_def field_def)
  have outb: "field (transformRegistration raw) k = boolStr (field raw k)"
    if "k \<in> set REGISTRATION_BOOLEANS" for k
    using that by (auto simp: REGISTRATION_BOOLEANS_def transformRegistration_def field_def)
  show ?thesis
    using or_spec by (auto simp: out outb js_or_def boolStr_def)
qed

theorem registration_coercion_witness:
  "''country'' \<in> set REGISTRATION_SCALARS
   \<and> ''email'' \<in> set REGISTRATION_SCALARS
   \<and> ''payment_confirmed'' \<in> set REGISTRATION_BOOLEANS
   \<and> typeof (field [(''email'', JStr ''a@b.com''), (''payment_confirmed'', JBool False)] ''email'')
       = ''string''
   \<and> field (transformRegistration
        [(''email'', JStr ''a@b.com''), (''payment_confirmed'', JBool False)]) ''country''
       = JStr ''''
   \<and> field (transformRegistration
        [(''email'', JStr ''a@b.com''), (''payment_confirmed'', JBool False)]) ''payment_confirmed''
       = JStr ''No''
   \<and> field (transformRegistration
        [(''email'', JStr ''a@b.com''), (''payment_confirmed'', JBool False)]) ''email''
       = spec_scalar (JStr ''a@b.com'')"
  using registration_coercion
    [of "[(''email'', JStr ''a@b.com''), (''payment_confirmed'', JBool False)]"]
  by (simp add: REGISTRATION_SCALARS_def REGISTRATION_BOOLEANS_def field_def spec_scalar_def)

text \<open>
  The claim as stated fails on a raw value that is falsy without being \<open>null\<close> or
  \<open>undefined\<close>: \<open>abstract_intent: false\<close> comes out as the empty string, where the
  string form is \<open>false\<close>.
\<close>

theorem registration_coercion_counterexample:
  "field (transformRegistration [(''abstract_intent'', JBool False)]) ''abstract_intent''
     \<noteq> spec_scalar (field [(''abstract_intent'', JBool False)] ''abstract_intent'')
   \<and> field (transformRegistration [(''abstract_intent'', JBool False)]) ''abstract_intent''
       = JStr ''''
   \<and> spec_scalar (field [(''abstract_intent'', JBool False)] ''abstract_intent'') = JStr ''false''"
  by (simp add: transformRegistration_def field_def js_or_def spec_scalar_def)

subsection \<open>Flattening an organizer\<close>



text \<open>
  The claim as stated fails on an organizer with a sub-field that is an object with an
  own \<open>toString\<close> field, given as an object or JSON-encoded: \<open>String\<close> cannot convert
  it and is called outside the \<open>try\<close>, so \<open>flattenOrganizer\<close> raises and returns no
  key.
\<close>

theorem flatten_organizer_counterexample:
  \<open>flattenOrganizer sample_parse
     (JObj [(''email'', JObj [(''toString'', JNum (Number False ''1''))])]) ''p''
     = Inl TypeError
   \<and> sample_parse (trim ''{"email":{"toString":1}}'')
       = Some (JObj [(''email'', JObj [(''toString'', JNum (Number False ''1''))])])
   \<and> flattenOrganizer sample_parse (JStr ''{"email":{"toString":1}}'') ''p'' = Inl TypeError\<close>
proof -
  have t: \<open>trim ''{"email":{"toString":1}}'' = ''{"email":{"toString":1}}''\<close>
    by (simp add: trim_def js_space_def)
  have p: \<open>sample_parse ''{"email":{"toString":1}}''
      = Some (JObj [(''email'', JObj [(''toString'', JNum (Number False ''1''))])])\<close>
    by (simp add: sample_parse_def)
  show ?thesis
    by (simp add: flattenOrganizer_def organizer_parsed_cases t p ORGANIZER_FIELDS_def
        organizer_value_def bindE_def field_def)
qed

subsection \<open>Organizer values of other shapes\<close>

text \<open>
  Claim C10.  A string that decodes to something other than a record (a number, a
  quoted string, an array, ...), a string of white space only, and a bare number or
  boolean all flatten, without raising, to the five prefixed keys with the empty
  string in each.
\<close>

theorem flatten_organizer_other_shapes:
  "(parse (trim s) = Some v \<and> \<not> is_record v \<longrightarrow>
      flattenOrganizer parse (JStr s) pfx = Inr (organizer_row pfx (\<lambda>k. '''')))
   \<and> (trim s = [] \<longrightarrow>
      flattenOrganizer parse (JStr s) pfx = Inr (organizer_row pfx (\<lambda>k. '''')))
   \<and> flattenOrganizer parse (JNum n) pfx = Inr (organizer_row pfx (\<lambda>k. ''''))
   \<and> flattenOrganizer parse (JBool b) pfx = Inr (organizer_row pfx (\<lambda>k. ''''))
   \<and> organizer_row pfx (\<lambda>k. '''') =
       [(pfx @ ''_email'', JStr ''''), (pfx @ ''_country'', JStr ''''),
        (pfx @ ''_lastName'', JStr ''''), (pfx @ ''_firstName'', JStr ''''),
        (pfx @ ''_affiliation'', JStr '''')]"
proof -
  have decoded: "flattenOrganizer parse (JStr s) pfx = Inr (organizer_row pfx (\<lambda>k. ''''))"
    if "parse (trim s) = Some v" "\<not> is_record v"
    by (rule flattenOrganizer_empty [OF organizer_parsed_cases(7)]) (simp add: that)
  have blank: "flattenOrganizer parse (JStr s) pfx = Inr (organizer_row pfx (\<lambda>k. ''''))"
    if "trim s = []"
    by (rule flattenOrganizer_empty [OF organizer_parsed_cases(7)]) (simp add: that)
  have num: "flattenOrganizer parse (JNum n) pfx = Inr (organizer_row pfx (\<lambda>k. ''''))"
    by (rule flattenOrganizer_empty [OF organizer_parsed_cases(4)]) simp
  have bool: "flattenOrganizer parse (JBool b) pfx = Inr (organizer_row pfx (\<lambda>k. ''''))"
    by (rule flattenOrganizer_empty [OF organizer_parsed_cases(3)]) simp
  show ?thesis
    using decoded blank num bool by (simp add: organizer_row_def)
qed

theorem flatten_organizer_other_shapes_witness:
  \<open>sample_parse (trim ''42'') = Some (JNum (Number False ''42''))
   \<and> \<not> is_record (JNum (Number False ''42''))
   \<and> flattenOrganizer sample_parse (JStr ''42'') ''p'' = Inr (organizer_row ''p'' (\<lambda>k. ''''))
   \<and> sample_parse (trim ''"abc"'') = Some (JStr ''abc'')
   \<and> \<not> is_record (JStr ''abc'')
   \<and> flattenOrganizer sample_parse (JStr ''"abc"'') ''p'' = Inr (organizer_row ''p'' (\<lambda>k. ''''))
   \<and> sample_parse (trim ''[1,2]'')
       = Some (JArr [JNum (Number False ''1''), JNum (Number False ''2'')])
   \<and> \<not> is_record (JArr [JNum (Number False ''1''), JNum (Number False ''2'')])
   \<and> flattenOrganizer sample_parse (JStr ''[1,2]'') ''p'' = Inr (organizer_row ''p'' (\<lambda>k. ''''))
   \<and> trim [CHR 0x20, CHR 0x09, CHR 0x0A] = []
   \<and> flattenOrganizer sample_parse (JStr [CHR 0x20, CHR 0x09, CHR 0x0A]) ''p''
       = Inr (organizer_row ''p'' (\<lambda>k. ''''))\<close>
proof -
  have t: \<open>trim ''42'' = ''42''\<close> \<open>trim ''"abc"'' = ''"abc"''\<close> \<open>trim ''[1,2]'' = ''[1,2]''\<close>
    \<open>trim [CHR 0x20, CHR 0x09, CHR 0x0A] = []\<close>
    by (simp_all add: trim_def js_space_def)
  have p: \<open>sample_parse ''42'' = Some (JNum (Number False ''42''))\<close>
    \<open>sample_parse ''"abc"'' = Some (JStr ''abc'')\<close>
    \<open>sample_parse ''[1,2]'' = Some (JArr [JNum (Number False ''1''), JNum (Number False ''2'')])\<close>
    by (simp_all add: sample_parse_def)
  show ?thesis
    using
      flatten_organizer_other_shapes [of sample_parse \<open>''42''\<close> "JNum (Number False ''42'')" "''p''"]
      flatten_organizer_other_shapes [of sample_parse \<open>''"abc"''\<close> "JStr ''abc''" "''p''"]
      flatten_organizer_other_shapes [of sample_parse \<open>''[1,2]''\<close>
        "JArr [JNum (Number False ''1''), JNum (Number False ''2'')]" "''p''"]
      flatten_organizer_other_shapes [of sample_parse "[CHR 0x20, CHR 0x09, CHR 0x0A]" JNull "''p''"]
    by (simp add: t p)
qed

subsection \<open>Keyword normalization\<close>



text \<open>
  The claim as stated fails on an array that holds an object with an own \<open>toString\<close>
  field and on such an object itself, on which \<open>join\<close> and \<open>String\<close> raise outside the
  \<open>try\<close>; and a string that decodes to such an array is not joined.
\<close>

theorem normalise_keywords_counterexample:
  \<open>normaliseKeywords sample_parse (JArr [JObj [(''toString'', JNum (Number False ''1''))]])
     = Inl TypeError
   \<and> normaliseKeywords sample_parse (JObj [(''toString'', JNum (Number False ''1''))])
     = Inl TypeError
   \<and> sample_parse (trim ''[{"toString":1}]'')
       = Some (JArr [JObj [(''toString'', JNum (Number False ''1''))]])
   \<and> normaliseKeywords sample_parse (JStr ''[{"toString":1}]'')
       = Inr (JStr ''[{"toString":1}]'')\<close>
proof -
  have t: \<open>trim ''[{"toString":1}]'' = ''[{"toString":1}]''\<close>
    by (simp add: trim_def js_space_def)
  have p: \<open>sample_parse ''[{"toString":1}]''
       = Some (JArr [JObj [(''toString'', JNum (Number False ''1''))]])\<close>
    by (simp add: sample_parse_def)
  show ?thesis
    by (simp add: normaliseKeywords_def bindE_def keywords_try_def charAt_def t p)
qed

subsection \<open>Batch normalization\<close>




subsection \<open>File paths\<close>

text \<open>
  Claim C7.  For every raw abstract or payment-receipt record: when \<open>file_path\<close> is a
  non-empty string, \<open>has_file\<close> is the final segment of the path after the last slash
  or backslash, or the whole path when that segment is empty, and \<open>_file_path\<close> is the
  raw path unchanged; when \<open>file_path\<close> is the empty string, \<open>null\<close> or absent, both
  \<open>has_file\<close> and \<open>_file_path\<close> are the empty string.
\<close>

theorem file_path_outputs:
  "(s \<noteq> [] \<and> field raw ''file_path'' = JStr s \<longrightarrow>
      returns (transformAbstract raw)
        (\<lambda>row. field row ''has_file'' = JStr (final_segment s) \<and> field row ''_file_path'' = JStr s)
      \<and> returns (transformPayment raw)
        (\<lambda>row. field row ''has_file'' = JStr (final_segment s) \<and> field row ''_file_path'' = JStr s))
   \<and> (field raw ''file_path'' = JStr '''' \<or> field raw ''file_path'' = JNull
        \<or> field raw ''file_path'' = JUndefined \<longrightarrow>
      returns (transformAbstract raw)
        (\<lambda>row. field row ''has_file'' = JStr '''' \<and> field row ''_file_path'' = JStr '''')
      \<and> returns (transformPayment raw)
        (\<lambda>row. field row ''has_file'' = JStr '''' \<and> field row ''_file_path'' = JStr ''''))"
proof -
  have present: "returns (transformAbstract raw)
        (\<lambda>row. field row ''has_file'' = JStr (final_segment s) \<and> field row ''_file_path'' = JStr s)
      \<and> returns (transformPayment raw)
        (\<lambda>row. field row ''has_file'' = JStr (final_segment s) \<and> field row ''_file_path'' = JStr s)"
    if "s \<noteq> []" "field raw ''file_path'' = JStr s"
  proof -
    have o: "js_or (JStr s) (JStr '''') = JStr s"
      using that by (simp add: js_or_def)
    have l: "field row ''has_file'' = h \<and> field row ''_file_path'' = p"
      if "map_of row ''has_file'' = Some h" "map_of row ''_file_path'' = Some p" for row h p
      using that by (simp add: field_def)
    show ?thesis
      unfolding transformAbstract_def transformPayment_def
      by (simp add: that fileLabel_eq bindE_def returns_def o l)
  qed
  have missing: "returns (transformAbstract raw)
        (\<lambda>row. field row ''has_file'' = JStr '''' \<and> field row ''_file_path'' = JStr '''')
      \<and> returns (transformPayment raw)
        (\<lambda>row. field row ''has_file'' = JStr '''' \<and> field row ''_file_path'' = JStr '''')"
    if "\<not> truthy (field raw ''file_path'')"
  proof -
    have o: "js_or (field raw ''file_path'') (JStr '''') = JStr ''''"
      using that by (simp add: js_or_def)
    have l: "field row ''has_file'' = h \<and> field row ''_file_path'' = p"
      if "map_of row ''has_file'' = Some h" "map_of row ''_file_path'' = Some p" for row h p
      using that by (simp add: field_def)
    show ?thesis
      unfolding transformAbstract_def transformPayment_def
      by (simp add: that bindE_def returns_def o l)
  qed
  show ?thesis
    using present missing by auto
qed

text \<open>The example of the specification, a path that ends in a slash, and an absent path.\<close>

theorem file_path_outputs_witness:
  "field [(''file_path'', JStr ''abstracts/uuid-name.pdf'')] ''file_path''
     = JStr ''abstracts/uuid-name.pdf''
   \<and> final_segment ''abstracts/uuid-name.pdf'' = ''uuid-name.pdf''
   \<and> returns (transformAbstract [(''file_path'', JStr ''abstracts/uuid-name.pdf'')])
       (\<lambda>row. field row ''has_file'' = JStr ''uuid-name.pdf''
             \<and> field row ''_file_path'' = JStr ''abstracts/uuid-name.pdf'')
   \<and> returns (transformPayment [(''file_path'', JStr ''abstracts/uuid-name.pdf'')])
       (\<lambda>row. field row ''has_file'' = JStr ''uuid-name.pdf''
             \<and> field row ''_file_path'' = JStr ''abstracts/uuid-name.pdf'')
   \<and> final_segment ''receipts/'' = ''receipts/''
   \<and> field [(''email'', JStr ''a@b.com'')] ''file_path'' = JUndefined
   \<and> returns (transformAbstract [(''email'', JStr ''a@b.com'')])
       (\<lambda>row. field row ''has_file'' = JStr '''' \<and> field row ''_file_path'' = JStr '''')"
proof -
  have f: "final_segment ''abstracts/uuid-name.pdf'' = ''uuid-name.pdf''"
    "final_segment ''receipts/'' = ''receipts/''"
    by (simp_all add: final_segment_def)
  show ?thesis
    using file_path_outputs [of "''abstracts/uuid-name.pdf''"
        "[(''file_path'', JStr ''abstracts/uuid-name.pdf'')]"]
      file_path_outputs [of "''x''" "[(''email'', JStr ''a@b.com'')]"]
    by (simp add: f field_def)
qed

subsection \<open>Attachment failures during the archive export\<close>



subsection \<open>Sanitized owner names in the archive\<close>

text \<open>
  Claim C9, as amended.  For every non-empty email string, \<open>safeEmail\<close> replaces each
  \<open>@\<close> with \<open>_at_\<close> and every other character outside the class \<open>[A-Za-z0-9._+-]\<close> with
  an underscore; for the empty string it returns \<open>unknown\<close>; in both cases the result
  holds only characters of the class.  \<open>zipFilename\<close> is the sanitized email, an
  underscore and the basename of the path.  In the archive, for rows whose \<open>email\<close> and
  \<open>_file_path\<close> are strings or falsy, every abstract that was fetched is stored as
  \<open>abstracts/\<close> followed by that name, every receipt that was fetched as
  \<open>payment_receipts/\<close>, the sanitized email, a slash and the basename, and the folder
  of each receipt's owner is there.
\<close>

theorem safe_email_names:
  "(e \<noteq> [] \<longrightarrow> safeEmail (JStr e) = Inr (sanitize e))
   \<and> safeEmail (JStr '''') = Inr ''unknown''
   \<and> returns (safeEmail (JStr e)) (list_all safe_char)
   \<and> returns (safeEmail (JStr e))
        (\<lambda>owner. zipFilename (JStr e) (JStr p) = Inr (owner @ ''_'' @ final_segment p))
   \<and> (flat_row row \<longrightarrow> safeEmail (field row ''email'') = Inr (owner_of row))
   \<and> abstract_entry row = ''abstracts/'' @ owner_of row @ ''_'' @ final_segment (path_of row)
   \<and> payment_entry row
       = ''payment_receipts/'' @ owner_of row @ ''/'' @ final_segment (path_of row)
   \<and> (list_all flat_row abstracts \<and> list_all flat_row payments \<longrightarrow>
        (\<exists>res outs w'.
            fetch_each sg fe (attachment_requests abstracts payments) w = (outs, w')
            \<and> downloadZip sg fe excelBuffer abstracts payments w = (Inr res, w')
            \<and> set (stored_of (entry_names abstracts payments) outs) \<subseteq> fst ` set (archive res)
            \<and> payment_folder ` set (filter has_file payments) \<subseteq> fst ` set (archive res)))"
proof -
  have s: "safeEmail (JStr e) = Inr (if e = [] then ''unknown'' else sanitize e)"
    by (rule safeEmail_string)
  have c: "list_all safe_char (if e = [] then ''unknown'' else sanitize e)"
    by (simp add: sanitize_safe safe_char_def)
  have z: "zipFilename (JStr e) (JStr p)
      = Inr ((if e = [] then ''unknown'' else sanitize e) @ ''_'' @ final_segment p)"
    by (simp add: zipFilename_def s bindE_def storageBasename_eq)
  have o: "flat_row row \<longrightarrow> safeEmail (field row ''email'') = Inr (owner_of row)"
    by (auto simp: flat_row_def intro: safeEmail_owner)
  have names: "\<exists>res outs w'.
            fetch_each sg fe (attachment_requests abstracts payments) w = (outs, w')
            \<and> downloadZip sg fe excelBuffer abstracts payments w = (Inr res, w')
            \<and> set (stored_of (entry_names abstracts payments) outs) \<subseteq> fst ` set (archive res)
            \<and> payment_folder ` set (filter has_file payments) \<subseteq> fst ` set (archive res)"
    if flat: "list_all flat_row abstracts" "list_all flat_row payments"
    using downloadZip_export [OF flat, of sg fe w excelBuffer]
  proof (elim exE conjE)
    fix res outs w'
    assume 1: "fetch_each sg fe (attachment_requests abstracts payments) w = (outs, w')"
      and 3: "downloadZip sg fe excelBuffer abstracts payments w = (Inr res, w')"
      and 5: "fst ` set (archive res)
          = {''conference_data.xlsx''}
            \<union> (if filter has_file abstracts = [] then {} else {''abstracts/''})
            \<union> set (stored_of (entry_names abstracts payments) outs)
            \<union> payment_folder ` set (filter has_file payments)
            \<union> (if failedFiles res = [] then {} else {''DOWNLOAD_ERRORS.txt''})"
    have a: "set (stored_of (entry_names abstracts payments) outs) \<subseteq> fst ` set (archive res)"
      unfolding 5 by (rule subsetI) simp
    have b: "payment_folder ` set (filter has_file payments) \<subseteq> fst ` set (archive res)"
      unfolding 5 by (rule subsetI) simp
    show ?thesis
      by (intro exI [of _ res] exI [of _ outs] exI [of _ w'] conjI 1 3 a b)
  qed
  then have n: "list_all flat_row abstracts \<and> list_all flat_row payments \<longrightarrow>
        (\<exists>res outs w'.
            fetch_each sg fe (attachment_requests abstracts payments) w = (outs, w')
            \<and> downloadZip sg fe excelBuffer abstracts payments w = (Inr res, w')
            \<and> set (stored_of (entry_names abstracts payments) outs) \<subseteq> fst ` set (archive res)
            \<and> payment_folder ` set (filter has_file payments) \<subseteq> fst ` set (archive res))"
    by simp
  show ?thesis
    using c
    by (intro conjI o n)
      (simp_all add: s z safeEmail_string returns_def abstract_entry_def payment_entry_def)
qed

text \<open>
  The example of the source's comment, an address with characters outside the class,
  and the archive of the sample export.
\<close>

theorem safe_email_names_witness:
  "''john.doe@example.com'' \<noteq> []
   \<and> safeEmail (JStr ''john.doe@example.com'') = Inr ''john.doe_at_example.com''
   \<and> zipFilename (JStr ''john.doe@example.com'') (JStr ''abstracts/uuid-my_abstract.pdf'')
       = Inr ''john.doe_at_example.com_uuid-my_abstract.pdf''
   \<and> safeEmail (JStr ''a b@c#d'') = Inr ''a_b_at_c_d''
   \<and> flat_row [(''email'', JStr ''c@d.org'')]
   \<and> safeEmail (field [(''email'', JStr ''c@d.org'')] ''email'') = Inr ''c_at_d.org''
   \<and> list_all flat_row sample_abstracts \<and> list_all flat_row sample_payments
   \<and> (\<exists>res w'. downloadZip sample_signer sample_fetch [] sample_abstracts sample_payments 0
                   = (Inr res, w')
        \<and> ''abstracts/c_at_d.org_ok.pdf'' \<in> fst ` set (archive res)
        \<and> ''payment_receipts/a_at_b.com/'' \<in> fst ` set (archive res))"
proof -
  note inst = safe_email_names
    [where e = "''john.doe@example.com''" and p = "''abstracts/uuid-my_abstract.pdf''"
       and row = "[(''email'', JStr ''c@d.org'')]" and abstracts = sample_abstracts and payments = sample_payments and sg = sample_signer
       and fe = sample_fetch and w = 0 and excelBuffer = "[]"]
  have san: "sanitize ''john.doe@example.com'' = ''john.doe_at_example.com''"
    "sanitize ''a b@c#d'' = ''a_b_at_c_d''"
    by (simp_all add: sanitize_def safe_char_def)
  have seg: "final_segment ''abstracts/uuid-my_abstract.pdf'' = ''uuid-my_abstract.pdf''"
    by (simp add: final_segment_def)
  from inst [THEN conjunct1]
  have e1: "safeEmail (JStr ''john.doe@example.com'') = Inr ''john.doe_at_example.com''"
    by (simp add: san)
  from inst [THEN conjunct2, THEN conjunct2, THEN conjunct2, THEN conjunct1] e1 have z1:
    "zipFilename (JStr ''john.doe@example.com'') (JStr ''abstracts/uuid-my_abstract.pdf'')
       = Inr ''john.doe_at_example.com_uuid-my_abstract.pdf''"
    by (simp add: returns_def seg)
  from safe_email_names [where e = "''a b@c#d''", THEN conjunct1]
  have e2: "safeEmail (JStr ''a b@c#d'') = Inr ''a_b_at_c_d''"
    by (simp add: san)
  have "\<exists>res outs w'.
      fetch_each sample_signer sample_fetch
        (attachment_requests sample_abstracts sample_payments) 0 = (outs, w')
      \<and> downloadZip sample_signer sample_fetch [] sample_abstracts sample_payments 0
          = (Inr res, w')
      \<and> set (stored_of (entry_names sample_abstracts sample_payments) outs)
          \<subseteq> fst ` set (archive res)
      \<and> payment_folder ` set (filter has_file sample_payments) \<subseteq> fst ` set (archive res)"
    by (rule mp [OF inst [THEN conjunct2, THEN conjunct2, THEN conjunct2, THEN conjunct2,
            THEN conjunct2, THEN conjunct2, THEN conjunct2] conjI [OF sample_flat]])
  then have run: "\<exists>res w'.
      downloadZip sample_signer sample_fetch [] sample_abstracts sample_payments 0 = (Inr res, w')
        \<and> ''abstracts/c_at_d.org_ok.pdf'' \<in> fst ` set (archive res)
        \<and> ''payment_receipts/a_at_b.com/'' \<in> fst ` set (archive res)"
  proof (elim exE conjE)
    fix res outs w'
    assume 1: "fetch_each sample_signer sample_fetch
        (attachment_requests sample_abstracts sample_payments) 0 = (outs, w')"
      and 3: "downloadZip sample_signer sample_fetch [] sample_abstracts sample_payments 0
          = (Inr res, w')"
      and a: "set (stored_of (entry_names sample_abstracts sample_payments) outs)
          \<subseteq> fst ` set (archive res)"
      and b: "payment_folder ` set (filter has_file sample_payments) \<subseteq> fst ` set (archive res)"
    from 1 have outs: "outs = [None, Some [37, 80, 68, 70], None]"
      unfolding sample_requests sample_outcomes by simp
    have "''abstracts/c_at_d.org_ok.pdf''
        \<in> set (stored_of (entry_names sample_abstracts sample_payments) outs)"
      by (simp add: outs sample_entries)
    with a have s: "''abstracts/c_at_d.org_ok.pdf'' \<in> fst ` set (archive res)"
      by (rule subsetD)
    have "''payment_receipts/a_at_b.com/'' \<in> set (map payment_folder (filter has_file sample_payments))"
      unfolding sample_entries by simp
    then have "''payment_receipts/a_at_b.com/'' \<in> payment_folder ` set (filter has_file sample_payments)"
      by simp
    with b have f: "''payment_receipts/a_at_b.com/'' \<in> fst ` set (archive res)"
      by (rule subsetD)
    show ?thesis
      by (intro exI [of _ res] exI [of _ w'] conjI 3 s f)
  qed
  have ne: "''john.doe@example.com'' \<noteq> []" by simp
  have fr: "flat_row [(''email'', JStr ''c@d.org'')]"
    by (simp add: flat_row_def field_def)
  from mp [OF inst [THEN conjunct2, THEN conjunct2, THEN conjunct2, THEN conjunct2,
        THEN conjunct1] fr]
  have ow: "safeEmail (field [(''email'', JStr ''c@d.org'')] ''email'') = Inr ''c_at_d.org''"
    by (simp add: owner_of_def field_def sanitize_def safe_char_def)
  show ?thesis
    by (intro conjI ne e1 z1 e2 fr ow sample_flat run)
qed

text \<open>
  The claim as stated fails on the empty string, which is what a row without an email
  holds: \<open>safeEmail\<close> returns \<open>unknown\<close>, where replacing characters gives the empty
  string.
\<close>

theorem safe_email_names_counterexample:
  "safeEmail (JStr '''') \<noteq> Inr (sanitize '''')
   \<and> safeEmail (JStr '''') = Inr ''unknown''
   \<and> sanitize '''' = ''''"
  by (simp add: safeEmail_def js_or_def replace_sanitize sanitize_def safe_char_def)

subsection \<open>Column projection\<close>

text \<open>
  Claim C5.  For every column list, \<open>uiColumns\<close> keeps exactly the columns whose
  \<open>excelOnly\<close> flag is not set and \<open>excelColumns\<close> exactly those whose \<open>uiOnly\<close> flag is
  not set, each in the order of the master list: a column flagged export-only is never
  in the UI projection, a column flagged ui-only never in the export projection, and the
  unflagged columns are in both, in the same relative order as in the master list.
\<close>

theorem column_projection:
  "uiColumns cols = filter (\<lambda>c. \<not> flag (excelOnly c)) cols
   \<and> excelColumns cols = filter (\<lambda>c. \<not> flag (uiOnly c)) cols
   \<and> subseq (uiColumns cols) cols
   \<and> subseq (excelColumns cols) cols
   \<and> (flag (excelOnly c) \<longrightarrow> c \<notin> set (uiColumns cols))
   \<and> (flag (uiOnly c) \<longrightarrow> c \<notin> set (excelColumns cols))
   \<and> (c \<in> set cols \<and> unflagged c \<longrightarrow>
        c \<in> set (uiColumns cols) \<and> c \<in> set (excelColumns cols))
   \<and> filter unflagged (uiColumns cols) = filter unflagged cols
   \<and> filter unflagged (excelColumns cols) = filter unflagged cols"
proof -
  have ui: "uiColumns cols = filter (\<lambda>c. \<not> flag (excelOnly c)) cols"
    by (simp add: uiColumns_def array_filter_eq)
  have ex: "excelColumns cols = filter (\<lambda>c. \<not> flag (uiOnly c)) cols"
    by (simp add: excelColumns_def array_filter_eq)
  have f1: "filter unflagged (uiColumns cols) = filter unflagged cols"
    unfolding ui by (induction cols) (auto simp: unflagged_def)
  have f2: "filter unflagged (excelColumns cols) = filter unflagged cols"
    unfolding ex by (induction cols) (auto simp: unflagged_def)
  show ?thesis
    using f1 f2 by (simp add: ui ex unflagged_def)
qed

text \<open>
  On the abstracts table: \<open>_file_path\<close> is export-only, \<open>has_file\<close> is ui-only and
  \<open>id\<close> is unflagged.
\<close>

theorem column_projection_witness:
  "flag (excelOnly ((col ''_file_path'' ''File Path (ZIP)'')\<lparr>excelOnly := Some True\<rparr>))
   \<and> (col ''_file_path'' ''File Path (ZIP)'')\<lparr>excelOnly := Some True\<rparr>
        \<notin> set (uiColumns ABSTRACT_COLUMNS)
   \<and> flag (uiOnly ((col ''has_file'' ''File'')\<lparr>uiOnly := Some True, bucket := Some ''abstracts''\<rparr>))
   \<and> (col ''has_file'' ''File'')\<lparr>uiOnly := Some True, bucket := Some ''abstracts''\<rparr>
        \<notin> set (excelColumns ABSTRACT_COLUMNS)
   \<and> col ''id'' ''ID'' \<in> set ABSTRACT_COLUMNS \<and> unflagged (col ''id'' ''ID'')
   \<and> col ''id'' ''ID'' \<in> set (uiColumns ABSTRACT_COLUMNS)
   \<and> col ''id'' ''ID'' \<in> set (excelColumns ABSTRACT_COLUMNS)
   \<and> map key (uiColumns ABSTRACT_COLUMNS) =
       [''id'', ''created_at'', ''first_name'', ''last_name'', ''email'', ''affiliation'',
        ''title'', ''session'', ''co_authors'', ''abstract_text'', ''has_file'']
   \<and> map key (excelColumns ABSTRACT_COLUMNS) =
       [''id'', ''created_at'', ''first_name'', ''last_name'', ''email'', ''affiliation'',
        ''title'', ''session'', ''co_authors'', ''abstract_text'', ''_file_path'']"
  using
    column_projection [of ABSTRACT_COLUMNS
      "(col ''_file_path'' ''File Path (ZIP)'')\<lparr>excelOnly := Some True\<rparr>"]
    column_projection [of ABSTRACT_COLUMNS
      "(col ''has_file'' ''File'')\<lparr>uiOnly := Some True, bucket := Some ''abstracts''\<rparr>"]
    column_projection [of ABSTRACT_COLUMNS "col ''id'' ''ID''"]
  by (simp add: ABSTRACT_COLUMNS_def col_def flag_def unflagged_def)

end
